theory Spec2Isabelle
  imports Main "HOL-Library.AList"
begin

section \<open>JavaScript strings\<close>

text \<open>
  A JavaScript string is modelled as a \<open>string\<close>, a list of characters whose code units
  are below 256. \<open>isWhiteSpace\<close> is the set that \<open>String.prototype.trim\<close> strips and
  that the regular-expression class \<open>\s\<close> matches (tab, line feed, vertical tab, form feed,
  carriage return, space, no-break space); \<open>\S\<close> is its complement and \<open>\d\<close> is
  \<open>isDigit\<close>.
\<close>

definition isWhiteSpace :: "char \<Rightarrow> bool" where
  "isWhiteSpace c = (of_char c \<in> {9, 10, 11, 12, 13, 32, 160 :: nat})"

definition isDigit :: "char \<Rightarrow> bool" where
  "isDigit c = (48 \<le> (of_char c :: nat) \<and> (of_char c :: nat) \<le> 57)"

definition trim :: "string \<Rightarrow> string" where
  "trim s = rev (dropWhile isWhiteSpace (rev (dropWhile isWhiteSpace s)))"

definition startsWith :: "string \<Rightarrow> string \<Rightarrow> bool" where
  "startsWith s p = (take (length p) s = p)"

text \<open>\<open>s.split(d)\<close> for a separator of one character: \<open>''.split(' ')\<close> is \<open>['']\<close>.\<close>

fun split :: "char \<Rightarrow> string \<Rightarrow> string list" where
  "split d [] = [[]]"
| "split d (c # cs) =
     (if c = d then [] # split d cs
      else (case split d cs of [] \<Rightarrow> [[c]] | w # ws \<Rightarrow> (c # w) # ws))"

text \<open>\<open>xs.join(sep)\<close> on an array of strings.\<close>

fun join :: "string \<Rightarrow> string list \<Rightarrow> string" where
  "join sep [] = []"
| "join sep [x] = x"
| "join sep (x # y # ys) = x @ sep @ join sep (y # ys)"

text \<open>
  \<open>Number(s)\<close> for a string of decimal digits, as the capture group \<open>(\d*)\<close> yields;
  \<open>Number('')\<close> is 0. The value is exact (the rounding of a double above \<open>2^53\<close> is not
  modelled).
\<close>

definition digitValue :: "char \<Rightarrow> nat" where
  "digitValue c = of_char c - 48"

definition Number :: "string \<Rightarrow> nat" where
  "Number s = foldl (\<lambda>n c. 10 * n + digitValue c) 0 s"

text \<open>
  \<open>String(n)\<close> for a non-negative integer, as a template literal inserts it: its decimal
  digits. \<open>digitsOf\<close> takes a bound on the number of digits, and \<open>Suc n\<close> is enough for
  \<open>n\<close>.
\<close>

fun digitsOf :: "nat \<Rightarrow> nat \<Rightarrow> string" where
  "digitsOf 0 n = []"
| "digitsOf (Suc fuel) n =
     (if n < 10 then [char_of (48 + n)]
      else digitsOf fuel (n div 10) @ [char_of (48 + n mod 10)])"

definition natToString :: "nat \<Rightarrow> string" where
  "natToString n = digitsOf (Suc n) n"

section \<open>Regular expressions\<close>

text \<open>
  The patterns of the source use literals, the classes \<open>\S\<close> and \<open>\d\<close>, the greedy
  quantifiers \<open>?\<close>, \<open>*\<close> and \<open>+\<close>, and capture groups. \<open>rmatch\<close> is the backtracking
  matcher of ECMAScript for this fragment: it returns every way the pattern can match at the
  start of the input, as the remaining input and the captures, in the order in which
  backtracking tries them. A greedy quantifier tries one more iteration before it tries to
  stop, and an iteration that consumes nothing is rejected. \<open>LitI\<close> is a literal under
  the flag \<open>i\<close>.
\<close>

datatype cclass = Lit char | LitI char | NonSpace | Digit

definition toUpper :: "char \<Rightarrow> char" where
  "toUpper c = (if 97 \<le> (of_char c :: nat) \<and> (of_char c :: nat) \<le> 122
                then char_of ((of_char c :: nat) - 32) else c)"

fun cmatch :: "cclass \<Rightarrow> char \<Rightarrow> bool" where
  "cmatch (Lit x) c = (c = x)"
| "cmatch (LitI x) c = (toUpper c = toUpper x)"
| "cmatch NonSpace c = (\<not> isWhiteSpace c)"
| "cmatch Digit c = isDigit c"

datatype regex =
    Atom cclass
  | Seq regex regex
  | Opt regex
  | Star regex
  | Group nat regex
  | Eps

type_synonym captures = "string option list"

function rmatch :: "regex \<Rightarrow> string \<times> captures \<Rightarrow> (string \<times> captures) list" where
  "rmatch (Atom a) (s, cs) =
     (case s of [] \<Rightarrow> [] | c # rest \<Rightarrow> if cmatch a c then [(rest, cs)] else [])"
| "rmatch (Seq r1 r2) (s, cs) = concat (map (rmatch r2) (rmatch r1 (s, cs)))"
| "rmatch (Opt r) (s, cs) =
     filter (\<lambda>(s', cs'). length s' < length s) (rmatch r (s, cs)) @ [(s, cs)]"
| "rmatch (Star r) (s, cs) =
     concat (map (\<lambda>(s', cs'). if length s' < length s then rmatch (Star r) (s', cs') else [])
                 (rmatch r (s, cs)))
     @ [(s, cs)]"
| "rmatch Eps (s, cs) = [(s, cs)]"
| "rmatch (Group k r) (s, cs) =
     map (\<lambda>(s', cs'). (s', cs'[k := Some (take (length s - length s') s)])) (rmatch r (s, cs))"
  by pat_completeness auto
termination
  by (relation "inv_image (less_than <*lex*> less_than) (\<lambda>(r, s, cs). (size r, length s))")
     auto

declare rmatch.simps(4) [simp del]

definition Plus :: "regex \<Rightarrow> regex" where
  "Plus r = Seq r (Star r)"

fun lits :: "(char \<Rightarrow> cclass) \<Rightarrow> string \<Rightarrow> regex" where
  "lits f [] = Eps"
| "lits f (c # cs) = Seq (Atom (f c)) (lits f cs)"

text \<open>
  \<open>execAt r n s\<close> is \<open>r.exec(s)\<close> for a pattern anchored with \<open>^\<close> with \<open>n\<close> capture
  groups: the first match in backtracking order, as the array of the match and the
  captures (\<open>None\<close> is \<open>undefined\<close>), or \<open>None\<close> for \<open>null\<close>. \<open>exec\<close> is the same
  for a pattern without anchor: the leftmost start position that matches wins. Every
  pattern of the source is a literal evaluated afresh at each call, so \<open>lastIndex\<close> is 0.
\<close>

definition execAt :: "regex \<Rightarrow> nat \<Rightarrow> string \<Rightarrow> captures option" where
  "execAt r n s =
     (case rmatch r (s, replicate (Suc n) None) of
        [] \<Rightarrow> None
      | (s', cs) # _ \<Rightarrow> Some (cs[0 := Some (take (length s - length s') s)]))"

fun exec :: "regex \<Rightarrow> nat \<Rightarrow> string \<Rightarrow> captures option" where
  "exec r n [] = execAt r n []"
| "exec r n (c # cs) =
     (case execAt r n (c # cs) of Some m \<Rightarrow> Some m | None \<Rightarrow> exec r n cs)"

text \<open>
  The three directive patterns of \<open>parseParams\<close>,
  \<^verbatim>\<open>/^\$\[cd_randchar\S?(\d*)\S*\]/g\<close>,
  \<^verbatim>\<open>/^\$\[cd_genaz\S?(\d*)\S*\]/g\<close> and
  \<^verbatim>\<open>/^\$\[cd_genpass(_strong)?\S?(\d*)\S*\]/g\<close>, and the pattern of
  \<open>genOverriddenParamMap\<close>, \<^verbatim>\<open>/Name=(\S+),Value=(\S+)/gi\<close>.
\<close>

definition numberTail :: "nat \<Rightarrow> regex" where
  "numberTail k =
     Seq (Opt (Atom NonSpace))
       (Seq (Group k (Star (Atom Digit)))
         (Seq (Star (Atom NonSpace)) (Atom (Lit (CHR '']'')))))"

definition re_randchar :: regex where
  "re_randchar = Seq (lits Lit ''$[cd_randchar'') (numberTail 1)"

definition re_genaz :: regex where
  "re_genaz = Seq (lits Lit ''$[cd_genaz'') (numberTail 1)"

definition re_genpass :: regex where
  "re_genpass =
     Seq (lits Lit ''$[cd_genpass'')
       (Seq (Opt (Group 1 (lits Lit ''_strong''))) (numberTail 2))"

definition re_override :: regex where
  "re_override =
     Seq (lits LitI ''Name='')
       (Seq (Group 1 (Plus (Atom NonSpace)))
         (Seq (lits LitI '',Value='') (Group 2 (Plus (Atom NonSpace)))))"

section \<open>Values, errors and the outside world\<close>

text \<open>
  The parameter document and the template are parsed JSON. \<open>Undefined\<close> is the value of a
  property that the document does not have. Numbers are modelled as integers.
  \<open>truthy\<close> is the conversion to a boolean that \<open>&&\<close>, \<open>||\<close> and \<open>!!\<close> apply, and
  \<open>toString\<close> is \<open>String(v)\<close>.
\<close>

datatype jsval =
    Undefined
  | Null
  | Bool bool
  | Num int
  | Str string
  | Arr "jsval list"
  | Obj "(string \<times> jsval) list"

fun truthy :: "jsval \<Rightarrow> bool" where
  "truthy Undefined = False"
| "truthy Null = False"
| "truthy (Bool b) = b"
| "truthy (Num n) = (n \<noteq> 0)"
| "truthy (Str s) = (s \<noteq> [])"
| "truthy (Arr xs) = True"
| "truthy (Obj fs) = True"

definition intToString :: "int \<Rightarrow> string" where
  "intToString i = (if i < 0 then CHR ''-'' # natToString (nat (- i)) else natToString (nat i))"

fun toString :: "jsval \<Rightarrow> string" where
  "toString Undefined = ''undefined''"
| "toString Null = ''null''"
| "toString (Bool b) = (if b then ''true'' else ''false'')"
| "toString (Num n) = intToString n"
| "toString (Str s) = s"
| "toString (Arr xs) =
     join '','' (map (\<lambda>x. if x = Undefined \<or> x = Null then [] else toString x) xs)"
| "toString (Obj fs) = ''[object Object]''"

text \<open>
  What a promise rejects with or a function throws: the \<open>TypeError\<close> of the engine (a
  property read on \<open>undefined\<close> or \<open>null\<close>, a call of something that is not a function),
  the \<open>RangeError\<close> of the engine (a call with more arguments than its stack holds), the
  \<open>Error\<close> that \<open>genAvailabilityZones\<close> throws with its message, and the error text with
  which a wrapper of an external command rejects.
\<close>

datatype error = TypeError | RangeError | Error string | Rejected string

text \<open>
  One entry of the parameter document. The key is a string; the value is whatever the
  document holds there.
\<close>

record param =
  ParameterKey :: string
  ParameterValue :: jsval

text \<open>
  What the resolver reads from outside. \<open>AWS_DEFAULT_REGION\<close> is the environment variable
  set by \<open>initAWSCLI\<close>. \<open>random i k\<close> is the 53-bit numerator of the \<open>k\<close>-th value that
  \<open>Math.random()\<close> returns to the resolution of entry \<open>i\<close>: the value is
  \<open>(random i k mod 2^53) / 2^53\<close>, at least 0 and below 1. \<open>availabilityZones i\<close> is the
  outcome of \<open>fetchAWSAvailabilityZones\<close> for entry \<open>i\<close>. \<open>arraySort cmp xs\<close> is the array
  after \<open>Array.prototype.sort\<close> ran on \<open>xs\<close> with a comparator whose \<open>j\<close>-th call
  returned \<open>cmp j\<close>; the comparator of the source ignores its arguments, so the order is the
  engine's choice. \<open>maxArguments\<close> is the greatest number of arguments that the engine
  accepts in one call: a call that spreads a longer array throws a \<open>RangeError\<close>.
\<close>

record world =
  AWS_DEFAULT_REGION :: string
  maxArguments :: nat
  random :: "nat \<Rightarrow> nat \<Rightarrow> nat"
  availabilityZones :: "nat \<Rightarrow> error + string list"
  arraySort :: "(nat \<Rightarrow> nat) \<Rightarrow> string list \<Rightarrow> string list"

section \<open>Value generators\<close>

text \<open>
  \<open>floorRandomTimes rnd k n\<close> is \<open>Math.floor(Math.random() * n)\<close> at the \<open>k\<close>-th call of
  \<open>Math.random\<close>, with the product taken exactly.
\<close>

definition floorRandomTimes :: "(nat \<Rightarrow> nat) \<Rightarrow> nat \<Rightarrow> nat \<Rightarrow> nat" where
  "floorRandomTimes rnd k n = (rnd k mod 2 ^ 53) * n div 2 ^ 53"

definition ranges :: "(nat \<times> nat) list" where
  "ranges = [(48, 57), (65, 90), (97, 122)]"

text \<open>
  \<open>s.charCodeAt(0)\<close>; on the empty string it is \<open>NaN\<close>, which \<open>String.fromCharCode\<close>
  turns into the code unit 0.
\<close>

definition charCodeAt0 :: "string \<Rightarrow> nat" where
  "charCodeAt0 s = (case s of [] \<Rightarrow> 0 | c # _ \<Rightarrow> of_char c)"

text \<open>
  \<open>String.fromCharCode(...charCodes)\<close>: every element of the array is one argument of the
  call, so the call throws when the array is longer than the engine allows.
\<close>

definition fromCharCode :: "nat \<Rightarrow> nat list \<Rightarrow> error + string" where
  "fromCharCode maxArgs charCodes =
     (if maxArgs < length charCodes then Inl RangeError else Inr (map char_of charCodes))"

text \<open>
  The body of the loop of \<open>genString\<close> at index \<open>i\<close>: the code it pushes. Each iteration
  calls \<open>Math.random\<close> twice, so iteration \<open>i\<close> reads the values \<open>2 * i\<close> and
  \<open>2 * i + 1\<close>. \<open>ranges[s]\<close> is \<open>undefined\<close> for \<open>s \<ge> 3\<close>; a read of \<open>specialChars\<close>
  out of range is \<open>undefined\<close>, on which \<open>charCodeAt\<close> throws.
\<close>

definition genCharCode :: "(nat \<Rightarrow> nat) \<Rightarrow> string list \<Rightarrow> nat \<Rightarrow> nat \<Rightarrow> error + nat" where
  "genCharCode rnd specialChars sz i =
     (let s = floorRandomTimes rnd (2 * i) sz in
      if s < length ranges then
        Inr (floorRandomTimes rnd (2 * i + 1) (snd (ranges ! s) - fst (ranges ! s))
             + fst (ranges ! s))
      else
        (let j = floorRandomTimes rnd (2 * i + 1) (length specialChars) in
         if j < length specialChars then Inr (charCodeAt0 (specialChars ! j))
         else Inl TypeError))"

function genString_loop ::
  "(nat \<Rightarrow> nat) \<Rightarrow> string list \<Rightarrow> nat \<Rightarrow> nat \<Rightarrow> nat \<Rightarrow> nat list \<Rightarrow> error + nat list" where
  "genString_loop rnd specialChars sz len i charCodes =
     (if i < len then
        (case genCharCode rnd specialChars sz i of
           Inl e \<Rightarrow> Inl e
         | Inr c \<Rightarrow> genString_loop rnd specialChars sz len (Suc i) (charCodes @ [c]))
      else Inr charCodes)"
  by pat_completeness auto
termination
  by (relation "measure (\<lambda>(rnd, specialChars, sz, len, i, charCodes). len - i)") auto

declare genString_loop.simps [simp del]

definition genString ::
  "nat \<Rightarrow> (nat \<Rightarrow> nat) \<Rightarrow> nat \<Rightarrow> string list \<Rightarrow> error + string" where
  "genString maxArgs rnd len specialChars =
     (case genString_loop rnd specialChars
             (length ranges + (if length specialChars > 0 then 1 else 0)) len 0 [] of
        Inl e \<Rightarrow> Inl e
      | Inr charCodes \<Rightarrow> fromCharCode maxArgs charCodes)"

definition symbols :: "string list" where
  "symbols = [''!'', ''@'', ''#'', ''$'', ''%'', ''^'', ''&'', ''*'', ''+'', ''-'']"

definition genPassword :: "nat \<Rightarrow> (nat \<Rightarrow> nat) \<Rightarrow> nat \<Rightarrow> bool \<Rightarrow> error + string" where
  "genPassword maxArgs rnd len containSymbol =
     genString maxArgs rnd len (if containSymbol then symbols else [])"

text \<open>
  The comparator that \<open>genAvailabilityZones\<close> passes to \<open>sort\<close>,
  \<^verbatim>\<open>Math.round(Math.random() * Math.floor(Math.random() * 100)) % 2\<close>, at its \<open>j\<close>-th
  call.
\<close>

definition shuffleCompare :: "(nat \<Rightarrow> nat) \<Rightarrow> nat \<Rightarrow> nat" where
  "shuffleCompare rnd j =
     ((rnd (2 * j) mod 2 ^ 53) * floorRandomTimes rnd (2 * j + 1) 100 * 2 + 2 ^ 53)
        div 2 ^ 54 mod 2"

definition notEnoughZones :: "string \<Rightarrow> nat \<Rightarrow> nat \<Rightarrow> string" where
  "notEnoughZones reg num got =
     ''parameter value generation error:''
     @ '' not enough availability zones in AWS region: '' @ reg @ ''.''
     @ '' request: '' @ natToString num @ '', got: '' @ natToString got"

definition genAvailabilityZones :: "world \<Rightarrow> nat \<Rightarrow> nat \<Rightarrow> error + string" where
  "genAvailabilityZones w i num =
     (case availabilityZones w i of
        Inl e \<Rightarrow> Inl e
      | Inr azones \<Rightarrow>
          if length azones < num
          then Inl (Error (notEnoughZones (AWS_DEFAULT_REGION w) num (length azones)))
          else Inr (join '','' (take num (arraySort w (shuffleCompare (random w i)) azones))))"

section \<open>Template defaults and the override table\<close>

text \<open>
  \<open>getProperty v k\<close> is the property read \<open>v[k]\<close> on a value of a parsed document. On
  \<open>undefined\<close> and \<open>null\<close> the read throws. An object has the properties of the
  document; an array and a string have their elements at the canonical decimal indices and
  \<open>length\<close>. Every other read finds nothing or an inherited member, which is a function or
  a prototype object without a property \<open>Default\<close>: \<open>getTemplateDefault\<close> returns the
  empty string for it as it does for \<open>undefined\<close>, and the model takes \<open>Undefined\<close>.
\<close>

definition arrayIndex :: "string \<Rightarrow> nat \<Rightarrow> nat option" where
  "arrayIndex k n = List.find (\<lambda>i. natToString i = k) [0 ..< n]"

fun getProperty :: "jsval \<Rightarrow> string \<Rightarrow> error + jsval" where
  "getProperty Undefined k = Inl TypeError"
| "getProperty Null k = Inl TypeError"
| "getProperty (Bool b) k = Inr Undefined"
| "getProperty (Num n) k = Inr Undefined"
| "getProperty (Str s) k =
     Inr (case arrayIndex k (length s) of
            Some i \<Rightarrow> Str [s ! i]
          | None \<Rightarrow> if k = ''length'' then Num (int (length s)) else Undefined)"
| "getProperty (Arr xs) k =
     Inr (case arrayIndex k (length xs) of
            Some i \<Rightarrow> xs ! i
          | None \<Rightarrow> if k = ''length'' then Num (int (length xs)) else Undefined)"
| "getProperty (Obj fs) k = Inr (case map_of fs k of None \<Rightarrow> Undefined | Some v \<Rightarrow> v)"

text \<open>
  \<open>cfnTemplateParams\<close> is \<open>templateJSON.Parameters\<close>, whatever the template holds there:
  \<open>Undefined\<close> for a template without the section.
\<close>

definition getTemplateDefault :: "jsval \<Rightarrow> string \<Rightarrow> error + string" where
  "getTemplateDefault cfnTemplateParams paramKey =
     (case getProperty cfnTemplateParams paramKey of
        Inl e \<Rightarrow> Inl e
      | Inr d \<Rightarrow>
          if truthy d then
            (case getProperty d ''Default'' of
               Inl e \<Rightarrow> Inl e
             | Inr v \<Rightarrow> if v \<noteq> Undefined then Inr (toString v) else Inr [])
          else Inr [])"

text \<open>
  The override table is a JavaScript \<open>Map\<close> from strings to strings, kept as the list of
  its entries in insertion order: \<open>set\<close> replaces the value of a key that is present and
  appends a new key.
\<close>

type_synonym paramMap = "(string \<times> string) list"

definition Map_get :: "paramMap \<Rightarrow> string \<Rightarrow> string option" where
  "Map_get m k = map_of m k"

definition Map_set :: "string \<Rightarrow> string \<Rightarrow> paramMap \<Rightarrow> paramMap" where
  "Map_set k v m = AList.update k v m"

definition genOverriddenParam :: "string \<Rightarrow> paramMap \<Rightarrow> string" where
  "genOverriddenParam key paramVariableMap =
     (case Map_get paramVariableMap key of
        None \<Rightarrow> []
      | Some v \<Rightarrow> if v \<noteq> [] then v else [])"

text \<open>
  The pair \<open>[name, value]\<close> that \<open>genOverriddenParamMap\<close> makes of one token; \<open>None\<close> is
  the pair \<open>[null, null]\<close> of a token that the pattern does not match. Both groups of the
  pattern take part in every match.
\<close>

definition nameValue :: "string \<Rightarrow> (string \<times> string) option" where
  "nameValue nvp =
     (case exec re_override 2 nvp of
        None \<Rightarrow> None
      | Some m \<Rightarrow>
          (case (m ! 1, m ! 2) of
             (Some name, Some v) \<Rightarrow> Some (name, v)
           | _ \<Rightarrow> None))"

definition newMap :: "(string \<times> string) option list \<Rightarrow> paramMap" where
  "newMap a = foldl (\<lambda>m nv. case nv of None \<Rightarrow> m | Some (name, v) \<Rightarrow> Map_set name v m) [] a"

definition genOverriddenParamMap :: "string \<Rightarrow> paramMap" where
  "genOverriddenParamMap inputString =
     newMap (filter (\<lambda>nv. case nv of None \<Rightarrow> False | Some (name, v) \<Rightarrow> name \<noteq> [])
                    (map nameValue (split (CHR '' '') inputString)))"

text \<open>
  The table that \<open>create\<close> builds: the table of the option \<open>--override\<close> when the option is
  given and not empty, an empty table otherwise, and then the four entries of the bucket and
  the key prefix, set in the order of the source.
\<close>

definition createParamVariableMap :: "string option \<Rightarrow> string \<Rightarrow> string \<Rightarrow> paramMap" where
  "createParamVariableMap override bucket keyPrefix =
     Map_set ''QSS3KeyPrefix'' (keyPrefix @ ''/'')
       (Map_set ''QSS3BucketName'' bucket
         (Map_set ''S3KeyPrefix'' (keyPrefix @ ''/'')
           (Map_set ''S3BucketName'' bucket
             (case override of
                None \<Rightarrow> []
              | Some inputString \<Rightarrow>
                  if inputString \<noteq> [] then genOverriddenParamMap inputString else []))))"

section \<open>Directive resolution\<close>

text \<open>
  \<open>paramUseTemplateDefault\<close> and \<open>paramIsOverridden\<close> return the truth value that the
  caller's \<open>if\<close> sees: a falsy \<open>ParameterValue\<close> makes the conjunction falsy, a truthy
  value that is not a string has no method \<open>trim\<close>, and the call throws.
\<close>

definition paramUseTemplateDefault :: "param \<Rightarrow> error + bool" where
  "paramUseTemplateDefault p =
     (if \<not> truthy (ParameterValue p) then Inr False
      else (case ParameterValue p of
              Str s \<Rightarrow> Inr (trim s = ''$[cd_default]'')
            | _ \<Rightarrow> Inl TypeError))"

definition paramIsOverridden :: "param \<Rightarrow> error + bool" where
  "paramIsOverridden p =
     (if \<not> truthy (ParameterValue p) then Inr False
      else (case ParameterValue p of
              Str s \<Rightarrow> Inr (trim s = ''$[cd_overridden]'')
            | _ \<Rightarrow> Inl TypeError))"

text \<open>
  The last branch of the callback of \<open>parseParams\<close>, for the trimmed value \<open>v\<close>. Where
  \<open>exec\<close> returns \<open>null\<close> the source takes the arrays \<open>[0, 0]\<close>, \<open>['', 0]\<close> and
  \<open>['', false, 0]\<close>: the number is 0, and in the first the guard \<open>if (matches[1])\<close> is
  false, as it is for an empty capture.
\<close>

definition resolveDirective :: "world \<Rightarrow> nat \<Rightarrow> param \<Rightarrow> string \<Rightarrow> error + param" where
  "resolveDirective w i p v =
     (if startsWith v ''$[cd_randchar'' then
        (case execAt re_randchar 1 v of
           None \<Rightarrow> Inr p
         | Some matches \<Rightarrow>
             (case matches ! 1 of
                None \<Rightarrow> Inr p
              | Some d \<Rightarrow>
                  if d \<noteq> [] then
                    (case genString (maxArguments w) (random w i) (Number d) [] of
                       Inl e \<Rightarrow> Inl e
                     | Inr r \<Rightarrow> Inr (p\<lparr>ParameterValue := Str r\<rparr>))
                  else Inr p))
      else if startsWith v ''$[cd_genaz'' then
        (case genAvailabilityZones w i
                (case execAt re_genaz 1 v of
                   None \<Rightarrow> 0
                 | Some matches \<Rightarrow> (case matches ! 1 of None \<Rightarrow> 0 | Some d \<Rightarrow> Number d)) of
           Inl e \<Rightarrow> Inl e
         | Inr r \<Rightarrow> Inr (p\<lparr>ParameterValue := Str r\<rparr>))
      else if startsWith v ''$[cd_genpass'' then
        (case genPassword (maxArguments w) (random w i)
                (case execAt re_genpass 2 v of
                   None \<Rightarrow> 0
                 | Some matches \<Rightarrow> (case matches ! 2 of None \<Rightarrow> 0 | Some d \<Rightarrow> Number d))
                (case execAt re_genpass 2 v of
                   None \<Rightarrow> False
                 | Some matches \<Rightarrow> (case matches ! 1 of None \<Rightarrow> False | Some g \<Rightarrow> g \<noteq> [])) of
           Inl e \<Rightarrow> Inl e
         | Inr r \<Rightarrow> Inr (p\<lparr>ParameterValue := Str r\<rparr>))
      else Inr p)"

text \<open>
  The callback that \<open>parseParams\<close> maps over the document, for the entry at index \<open>i\<close>:
  the promise it returns is fulfilled with the entry (\<open>Inr\<close>) or rejected (\<open>Inl\<close>).
\<close>

definition resolveParam ::
  "world \<Rightarrow> jsval \<Rightarrow> paramMap \<Rightarrow> nat \<Rightarrow> param \<Rightarrow> error + param" where
  "resolveParam w cfnTemplateParams paramVariableMap i p =
     (case paramUseTemplateDefault p of
        Inl e \<Rightarrow> Inl e
      | Inr True \<Rightarrow>
          (case getTemplateDefault cfnTemplateParams (ParameterKey p) of
             Inl e \<Rightarrow> Inl e
           | Inr d \<Rightarrow> Inr (p\<lparr>ParameterValue := Str d\<rparr>))
      | Inr False \<Rightarrow>
          (case paramIsOverridden p of
             Inl e \<Rightarrow> Inl e
           | Inr True \<Rightarrow>
               Inr (p\<lparr>ParameterValue := Str (genOverriddenParam (ParameterKey p) paramVariableMap)\<rparr>)
           | Inr False \<Rightarrow>
               (case ParameterValue p of
                  Str raw \<Rightarrow> resolveDirective w i p (trim raw)
                | _ \<Rightarrow> Inl TypeError)))"

text \<open>
  \<open>Promise.all\<close> over the promises of the entries: fulfilled with all the entries in the
  order of the document, or rejected with the first rejection. A \<open>TypeError\<close> or a
  \<open>RangeError\<close> is thrown before the callback first awaits (\<open>genString\<close> and
  \<open>genPassword\<close> run before the \<open>await\<close> takes their value), so the promise of such an
  entry is rejected when \<open>Promise.all\<close> starts and the first of them in the order of the
  document wins, before any request for zones settles; among the latter the model takes the
  order of the document.
\<close>

definition thrownBeforeAwait :: "error \<Rightarrow> bool" where
  "thrownBeforeAwait e = (e = TypeError \<or> e = RangeError)"

fun lefts :: "('e + 'a) list \<Rightarrow> 'e list" where
  "lefts [] = []"
| "lefts (Inl e # rs) = e # lefts rs"
| "lefts (Inr x # rs) = lefts rs"

fun rights :: "('e + 'a) list \<Rightarrow> 'a list" where
  "rights [] = []"
| "rights (Inl e # rs) = rights rs"
| "rights (Inr x # rs) = x # rights rs"

definition Promise_all :: "(error + 'a) list \<Rightarrow> error + 'a list" where
  "Promise_all rs =
     (case filter thrownBeforeAwait (lefts rs) of
        e # _ \<Rightarrow> Inl e
      | [] \<Rightarrow> (case lefts rs of e # _ \<Rightarrow> Inl e | [] \<Rightarrow> Inr (rights rs)))"

definition parseParams ::
  "world \<Rightarrow> param list \<Rightarrow> jsval \<Rightarrow> paramMap \<Rightarrow> error + param list" where
  "parseParams w paramJSON cfnTemplateParams paramVariableMap =
     Promise_all (map (\<lambda>(i, p). resolveParam w cfnTemplateParams paramVariableMap i p)
                      (zip [0 ..< length paramJSON] paramJSON))"

section \<open>The two subcommands\<close>

text \<open>
  The outcomes of the steps that run external commands or touch files, each either the
  rejection or exception (\<open>Inl\<close>) or the result: \<open>loadTemplateFromS3\<close> gives the
  parsed template, \<open>readParamFile\<close> is
  \<open>readFileAsJson(command.paramFile)\<close>, and \<open>saveJsonToFile\<close> is the write of the
  parameter file given the resolved entries.
\<close>

record stages =
  loadTemplateFromS3 :: "error + jsval"
  readParamFile :: "error + param list"
  saveJsonToFile :: "param list \<Rightarrow> error + unit"
  createCloudFormationStack :: "error + string"
  unpackZip :: "error + string"
  uploadDeploymentPackageToS3 :: "error + string"

text \<open>
  The console, as the lines that \<open>create\<close>, \<open>deploy\<close> and \<open>main\<close> print themselves
  (the lines that the helpers print are left out): \<open>ErrorLine e\<close> is \<open>console.error(e)\<close>
  and \<open>ProgramEnds\<close> is the line \<open>program ends.\<close> of \<open>main\<close>.
\<close>

datatype console_line =
    LoadingTemplateFrom
  | ParsingTemplateParameters
  | ErrorLine error
  | PackageExtractedTo string
  | DeployComplete
  | ProgramEnds

text \<open>
  The options and arguments of a subcommand: for \<open>create\<close> the bucket, the key prefix,
  the option \<open>--override\<close> and whether the option \<open>--param-file\<close> is given.
\<close>

datatype subcommand = Deploy | Create string string "string option" bool

text \<open>
  The \<open>try\<close> block of \<open>create\<close>. The parameter file is read first; then the arguments
  of \<open>parseParams\<close> are evaluated, of which \<open>templateJSON.Parameters\<close> throws on a
  template that is \<open>null\<close>. Without the option \<open>--param-file\<close> the document is
  \<open>null\<close>, and \<open>parseParams\<close> throws on \<open>null.map\<close>. The URL of the template, the
  name of the parameter file and the name of the stack do not decide any outcome and are
  left out.
\<close>

definition createTry ::
  "world \<Rightarrow> stages \<Rightarrow> paramMap \<Rightarrow> bool \<Rightarrow> console_line list \<times> (error + unit)" where
  "createTry w st paramVariableMap paramFile =
     (case loadTemplateFromS3 st of
        Inl e \<Rightarrow> ([LoadingTemplateFrom], Inl e)
      | Inr templateJSON \<Rightarrow>
          ([LoadingTemplateFrom, ParsingTemplateParameters],
           (case (if paramFile then map_sum id Some (readParamFile st) else Inr None) of
              Inl e \<Rightarrow> Inl e
            | Inr paramJSON \<Rightarrow>
                (case getProperty templateJSON ''Parameters'' of
                   Inl e \<Rightarrow> Inl e
                 | Inr cfnTemplateParams \<Rightarrow>
                     (case (case paramJSON of
                              None \<Rightarrow> Inl TypeError
                            | Some entries \<Rightarrow>
                                parseParams w entries cfnTemplateParams paramVariableMap) of
                        Inl e \<Rightarrow> Inl e
                      | Inr resolved \<Rightarrow>
                          (case saveJsonToFile st resolved of
                             Inl e \<Rightarrow> Inl e
                           | Inr u \<Rightarrow>
                               (case createCloudFormationStack st of
                                  Inl e \<Rightarrow> Inl e
                                | Inr out \<Rightarrow> Inr ())))))))"

text \<open>
  \<open>create\<close>: the \<open>catch\<close> prints the error and the function returns. \<open>deploy\<close> has no
  \<open>try\<close>: a rejection of one of its two steps rejects the promise that \<open>deploy\<close>
  returns.
\<close>

definition create ::
  "world \<Rightarrow> stages \<Rightarrow> string \<Rightarrow> string \<Rightarrow> string option \<Rightarrow> bool
     \<Rightarrow> console_line list \<times> (error + unit)" where
  "create w st bucket keyPrefix override paramFile =
     (case createTry w st (createParamVariableMap override bucket keyPrefix) paramFile of
        (out, Inl e) \<Rightarrow> (out @ [ErrorLine e], Inr ())
      | (out, Inr u) \<Rightarrow> (out, Inr ()))"

definition deploy :: "stages \<Rightarrow> console_line list \<times> (error + unit)" where
  "deploy st =
     (case unpackZip st of
        Inl e \<Rightarrow> ([], Inl e)
      | Inr sourceDir \<Rightarrow>
          (case uploadDeploymentPackageToS3 st of
             Inl e \<Rightarrow> ([], Inl e)
           | Inr s3Dest \<Rightarrow> ([PackageExtractedTo s3Dest, DeployComplete], Inr ())))"

text \<open>
  \<open>main\<close>: \<open>program.parseAsync\<close> runs the action of the subcommand and returns its
  promise; \<open>main\<close> awaits it and then prints its last line. When the promise rejects, the
  \<open>await\<close> throws, the line is not printed and the promise of \<open>main\<close>, which nothing
  handles, rejects (\<open>Inl\<close>).
\<close>

definition main :: "world \<Rightarrow> stages \<Rightarrow> subcommand \<Rightarrow> console_line list \<times> (error + unit)" where
  "main w st cmd =
     (case (case cmd of
              Deploy \<Rightarrow> deploy st
            | Create bucket keyPrefix override paramFile \<Rightarrow>
                create w st bucket keyPrefix override paramFile) of
        (out, Inl e) \<Rightarrow> (out, Inl e)
      | (out, Inr u) \<Rightarrow> (out @ [ProgramEnds], Inr ()))"

section \<open>Sets and inputs that the properties speak about\<close>

text \<open>
  \<open>baseCodes\<close> are the codes that the three ranges can yield. \<open>declaredAlphabet\<close> is
  the alphabet of the specification: the digits, the upper-case and the lower-case letters,
  and the supplied symbols, a symbol being a string of one character.
\<close>

definition baseCodes :: "nat set" where
  "baseCodes = {48 ..< 57} \<union> {65 ..< 90} \<union> {97 ..< 122}"

definition declaredAlphabet :: "string list \<Rightarrow> char set" where
  "declaredAlphabet specialChars =
     {c. 48 \<le> (of_char c :: nat) \<and> (of_char c :: nat) \<le> 57}
     \<union> {c. 65 \<le> (of_char c :: nat) \<and> (of_char c :: nat) \<le> 90}
     \<union> {c. 97 \<le> (of_char c :: nat) \<and> (of_char c :: nat) \<le> 122}
     \<union> {c. [c] \<in> set specialChars}"

text \<open>
  Concrete inputs: a source of random values that always returns the greatest value below 1,
  and a world of the region \<open>us-east-1\<close> with three zones whose engine accepts 130000
  arguments in a call and leaves an array in place when the comparator never returns a
  negative number.
\<close>

definition greatestRandom :: "nat \<Rightarrow> nat" where
  "greatestRandom k = 2 ^ 53 - 1"

definition keepOrder :: "(nat \<Rightarrow> nat) \<Rightarrow> string list \<Rightarrow> string list" where
  "keepOrder cmp xs = xs"

definition threeZones :: "nat \<Rightarrow> error + string list" where
  "threeZones i = Inr [''a'', ''b'', ''c'']"

definition exampleWorld :: world where
  "exampleWorld =
     \<lparr>AWS_DEFAULT_REGION = ''us-east-1'', maxArguments = 130000,
      random = (\<lambda>i. greatestRandom),
      availabilityZones = threeZones, arraySort = keepOrder\<rparr>"

text \<open>Whether a value is a string.\<close>

definition isString :: "jsval \<Rightarrow> bool" where
  "isString v = (case v of Str s \<Rightarrow> True | _ \<Rightarrow> False)"

text \<open>The indices of the capture groups of a pattern.\<close>

fun groups :: "regex \<Rightarrow> nat set" where
  "groups (Atom a) = {}"
| "groups (Seq r1 r2) = groups r1 \<union> groups r2"
| "groups (Opt r) = groups r"
| "groups (Star r) = groups r"
| "groups (Group k r) = insert k (groups r)"
| "groups Eps = {}"

section \<open>The random string generator\<close>

lemma floorRandomTimes_less: "0 < n \<Longrightarrow> floorRandomTimes rnd k n < n"
proof -
  assume n: "0 < n"
  have "rnd k mod 2 ^ 53 < (2 ^ 53 :: nat)" by simp
  then have "(rnd k mod 2 ^ 53) * n < n * 2 ^ 53" using n by (simp add: mult.commute)
  then show ?thesis unfolding floorRandomTimes_def by (rule less_mult_imp_div_less)
qed

lemma genCharCode_range:
  assumes "s < 3"
  shows "floorRandomTimes rnd k (snd (ranges ! s) - fst (ranges ! s)) + fst (ranges ! s)
           \<in> baseCodes"
proof -
  from assms consider "s = 0" | "s = 1" | "s = 2" by linarith
  then show ?thesis
  proof cases
    case 1
    have "floorRandomTimes rnd k 9 < 9" by (rule floorRandomTimes_less) simp
    with 1 show ?thesis by (simp add: ranges_def baseCodes_def)
  next
    case 2
    have "floorRandomTimes rnd k 25 < 25" by (rule floorRandomTimes_less) simp
    with 2 show ?thesis by (simp add: ranges_def baseCodes_def)
  next
    case 3
    have "floorRandomTimes rnd k 25 < 25" by (rule floorRandomTimes_less) simp
    with 3 show ?thesis by (simp add: ranges_def baseCodes_def)
  qed
qed

text \<open>
  An iteration never throws: the index 3 of \<open>ranges\<close> is only drawn when symbols are
  supplied, and then the index into the symbols is in range.
\<close>

lemma genCharCode_ok:
  assumes "sz = length ranges + (if length specialChars > 0 then 1 else 0)"
  shows "\<exists>c. genCharCode rnd specialChars sz i = Inr c
             \<and> c \<in> baseCodes \<union> charCodeAt0 ` set specialChars"
proof (cases "floorRandomTimes rnd (2 * i) sz < length ranges")
  case True
  then have "floorRandomTimes rnd (2 * i) sz < 3" by (simp add: ranges_def)
  from genCharCode_range[OF this] True show ?thesis
    by (simp add: genCharCode_def Let_def)
next
  case False
  have "0 < sz" using assms by (simp add: ranges_def)
  then have lt: "floorRandomTimes rnd (2 * i) sz < sz" by (rule floorRandomTimes_less)
  with False assms have ne: "0 < length specialChars"
    by (auto simp: ranges_def split: if_splits)
  then have j: "floorRandomTimes rnd (2 * i + 1) (length specialChars) < length specialChars"
    by (rule floorRandomTimes_less)
  then have "charCodeAt0 (specialChars ! floorRandomTimes rnd (2 * i + 1) (length specialChars))
               \<in> charCodeAt0 ` set specialChars" by simp
  with False j show ?thesis by (simp add: genCharCode_def Let_def)
qed

lemma genString_loop_ok:
  assumes "\<And>i. \<exists>c. genCharCode rnd specialChars sz i = Inr c \<and> c \<in> A"
  shows "\<exists>codes. genString_loop rnd specialChars sz len i acc = Inr codes
           \<and> length codes = length acc + (len - i) \<and> set codes \<subseteq> set acc \<union> A"
  using assms
proof (induction rnd specialChars sz len i acc rule: genString_loop.induct)
  case (1 rnd specialChars sz len i charCodes)
  show ?case
  proof (cases "i < len")
    case False
    then show ?thesis by (subst genString_loop.simps) simp
  next
    case True
    from "1.prems" obtain c where c: "genCharCode rnd specialChars sz i = Inr c" "c \<in> A"
      by blast
    from "1.IH"[OF True c(1) "1.prems"] obtain codes where
      codes: "genString_loop rnd specialChars sz len (Suc i) (charCodes @ [c]) = Inr codes"
        "length codes = length (charCodes @ [c]) + (len - Suc i)"
        "set codes \<subseteq> set (charCodes @ [c]) \<union> A"
      by blast
    from True c codes show ?thesis
      by (subst genString_loop.simps) auto
  qed
qed

lemma genString_codes:
  "\<exists>codes. genString maxArgs rnd L specialChars = fromCharCode maxArgs codes
       \<and> length codes = L
       \<and> set codes \<subseteq> baseCodes \<union> charCodeAt0 ` set specialChars"
proof -
  let ?sz = "length ranges + (if length specialChars > 0 then 1 else 0)"
  have "\<And>i. \<exists>c. genCharCode rnd specialChars ?sz i = Inr c
                \<and> c \<in> baseCodes \<union> charCodeAt0 ` set specialChars"
    by (rule genCharCode_ok) simp
  from genString_loop_ok[OF this, of L 0 "[]"] show ?thesis
    by (auto simp: genString_def)
qed

lemma genString_zero: "genString maxArgs rnd 0 specialChars = Inr []"
  by (simp add: genString_def genString_loop.simps fromCharCode_def)

text \<open>Above the limit of the engine the call of \<open>String.fromCharCode\<close> throws.\<close>

lemma genString_over_limit:
  assumes "maxArgs < L"
  shows "genString maxArgs rnd L specialChars = Inl RangeError"
proof -
  obtain codes where "genString maxArgs rnd L specialChars = fromCharCode maxArgs codes"
    "length codes = L" using genString_codes by blast
  with assms show ?thesis by (simp add: fromCharCode_def)
qed

lemma genString_Inr:
  assumes "genString maxArgs rnd L specialChars = Inr s"
  shows "\<exists>codes. s = map char_of codes \<and> length codes = L \<and> L \<le> maxArgs
           \<and> set codes \<subseteq> baseCodes \<union> charCodeAt0 ` set specialChars"
proof -
  obtain codes where codes: "genString maxArgs rnd L specialChars = fromCharCode maxArgs codes"
    "length codes = L" "set codes \<subseteq> baseCodes \<union> charCodeAt0 ` set specialChars"
    using genString_codes by blast
  with assms have "fromCharCode maxArgs codes = Inr s" by simp
  then have "s = map char_of codes" "length codes \<le> maxArgs"
    by (simp_all add: fromCharCode_def split: if_splits)
  with codes(2,3) show ?thesis by blast
qed

lemma char_of_baseCodes: "n \<in> baseCodes \<Longrightarrow> char_of n \<in> declaredAlphabet specialChars"
  by (auto simp: baseCodes_def declaredAlphabet_def)

lemma char_of_symbol:
  assumes "\<forall>sym \<in> set specialChars. length sym = 1" and "n \<in> charCodeAt0 ` set specialChars"
  shows "char_of n \<in> declaredAlphabet specialChars"
proof -
  from assms(2) obtain sym where sym: "sym \<in> set specialChars" "n = charCodeAt0 sym" by blast
  with assms(1) have "length sym = 1" by blast
  then obtain c where c: "sym = [c]" by (cases sym) auto
  with sym(2) have "char_of n = c" by (simp add: charCodeAt0_def)
  with sym(1) c show ?thesis by (simp add: declaredAlphabet_def)
qed

lemma genString_shape:
  assumes "L \<le> maxArgs" and "\<forall>sym \<in> set specialChars. length sym = 1"
  shows "\<exists>s. genString maxArgs rnd L specialChars = Inr s \<and> length s = L
           \<and> (\<forall>c \<in> set s. c \<in> declaredAlphabet specialChars)"
proof -
  obtain codes where
    codes: "genString maxArgs rnd L specialChars = fromCharCode maxArgs codes"
      "length codes = L"
      "set codes \<subseteq> baseCodes \<union> charCodeAt0 ` set specialChars"
    using genString_codes by blast
  from codes(1,2) assms(1)
  have eq: "genString maxArgs rnd L specialChars = Inr (map char_of codes)"
    by (simp add: fromCharCode_def)
  have "\<forall>c \<in> set (map char_of codes). c \<in> declaredAlphabet specialChars"
  proof
    fix c assume "c \<in> set (map char_of codes)"
    then obtain n where n: "n \<in> set codes" "c = char_of n" by auto
    with codes(3) consider "n \<in> baseCodes" | "n \<in> charCodeAt0 ` set specialChars" by blast
    then show "c \<in> declaredAlphabet specialChars"
    proof cases
      case 1 with n show ?thesis by (simp add: char_of_baseCodes)
    next
      case 2 with n assms(2) show ?thesis by (simp add: char_of_symbol)
    qed
  qed
  with eq codes(2) show ?thesis by simp
qed

lemma genString_loop_const:
  assumes "\<And>i. genCharCode rnd specialChars sz i = Inr c"
  shows "genString_loop rnd specialChars sz len i acc = Inr (acc @ replicate (len - i) c)"
  using assms
proof (induction rnd specialChars sz len i acc rule: genString_loop.induct)
  case (1 rnd specialChars sz len i charCodes)
  show ?case
  proof (cases "i < len")
    case False
    then show ?thesis by (subst genString_loop.simps) simp
  next
    case True
    then have "len - i = Suc (len - Suc i)" by simp
    with True "1.IH"[OF True "1.prems" "1.prems"] "1.prems" show ?thesis
      by (subst genString_loop.simps) (simp add: replicate_append_same)
  qed
qed

lemma floorRandomTimes_greatest:
  "floorRandomTimes greatestRandom k 3 = 2" "floorRandomTimes greatestRandom k 25 = 24"
  "floorRandomTimes greatestRandom k 4 = 3" "floorRandomTimes greatestRandom k 10 = 9"
  "floorRandomTimes greatestRandom k 1 = 0"
  by (simp_all add: floorRandomTimes_def greatestRandom_def)

lemma ranges_last: "ranges ! 2 = (97, 122)" "length ranges = 3"
  by (simp_all add: ranges_def)

lemma genCharCode_greatest: "genCharCode greatestRandom [] 3 i = Inr 121"
  unfolding genCharCode_def Let_def floorRandomTimes_greatest ranges_last
  by (simp add: floorRandomTimes_greatest)

lemma genCharCode_greatest_symbols: "genCharCode greatestRandom symbols 4 i = Inr 45"
proof -
  have l: "length symbols = 10" and n: "symbols ! 9 = ''-''" by (simp_all add: symbols_def)
  show ?thesis
    unfolding genCharCode_def Let_def floorRandomTimes_greatest ranges_last l n
    by (simp add: charCodeAt0_def)
qed

lemma genCharCode_greatest_empty_symbol: "genCharCode greatestRandom [[]] 4 i = Inr 0"
proof -
  have l: "length [[] :: string] = 1" by simp
  show ?thesis
    unfolding genCharCode_def Let_def l floorRandomTimes_greatest ranges_last
    by (simp add: charCodeAt0_def)
qed

lemma genString_greatest_symbols: "genString 130000 greatestRandom 2 symbols = Inr ''--''"
proof -
  have sz: "length ranges + (if length symbols > 0 then 1 else 0) = 4"
    by (simp add: ranges_def symbols_def)
  show ?thesis
    unfolding genString_def sz
      genString_loop_const[of greatestRandom symbols 4, OF genCharCode_greatest_symbols]
    by (simp add: fromCharCode_def char_of_eq_iff numeral_2_eq_2)
qed

lemma genString_greatest_empty_symbol:
  "genString 130000 greatestRandom 1 [[]] = Inr [CHR 0x00]"
proof -
  have sz: "length ranges + (if length [[] :: string] > 0 then 1 else 0) = 4"
    by (simp add: ranges_def)
  show ?thesis
    unfolding genString_def sz
      genString_loop_const[of greatestRandom "[[]]" 4, OF genCharCode_greatest_empty_symbol]
    by (simp add: fromCharCode_def char_of_eq_iff)
qed

text \<open>
  C7, as the code has it. For every length \<open>L\<close> that does not exceed the number of
  arguments the engine accepts in a call, every list of symbols of one character each and
  every sequence of random values, \<open>genString\<close> returns (it does not throw) a string of
  exactly \<open>L\<close> characters, each of them a digit, an upper-case letter, a lower-case letter or
  one of the supplied symbols; for the length 0 it returns the empty string.
\<close>

theorem genString_length_alphabet:
  assumes "L \<le> maxArgs" and "\<forall>sym \<in> set specialChars. length sym = 1"
  shows "(\<exists>s. genString maxArgs rnd L specialChars = Inr s \<and> length s = L
             \<and> (\<forall>c \<in> set s. c \<in> declaredAlphabet specialChars))
         \<and> genString maxArgs rnd 0 specialChars = Inr []"
  using genString_shape[OF assms] genString_zero by (intro conjI)

theorem genString_length_alphabet_witness:
  "(2::nat) \<le> 130000 \<and> length ''-'' = 1
   \<and> genString 130000 greatestRandom 2 symbols = Inr ''--''
   \<and> CHR ''-'' \<in> set ''--'' \<and> CHR ''-'' \<in> declaredAlphabet symbols"
proof -
  have a: "(2::nat) \<le> 130000" by simp
  have b: "\<forall>sym \<in> set symbols. length sym = 1" by (simp add: symbols_def)
  from genString_length_alphabet[OF a b, of greatestRandom] genString_greatest_symbols
  have "\<forall>c \<in> set ''--''. c \<in> declaredAlphabet symbols" by simp
  then have "CHR ''-'' \<in> declaredAlphabet symbols" by simp
  with a genString_greatest_symbols show ?thesis by simp
qed

text \<open>
  C7 as stated fails. A string of 1000000 characters is more than an engine that accepts
  130000 arguments takes in the call \<open>String.fromCharCode(...charCodes)\<close>, and \<open>genString\<close>
  throws a \<open>RangeError\<close>. And with the empty string as the only symbol, the greatest random
  value selects the symbol, whose \<open>charCodeAt(0)\<close> is \<open>NaN\<close>, and the result is the
  character of code 0, which is no digit, no letter and no supplied symbol.
\<close>

theorem genString_length_alphabet_counterexample:
  "genString 130000 greatestRandom 1000000 [] = Inl RangeError
   \<and> genString 130000 greatestRandom 1 [[]] = Inr [CHR 0x00]
   \<and> CHR 0x00 \<notin> declaredAlphabet [[]]"
proof -
  have "(130000::nat) < 1000000" by simp
  then have "genString 130000 greatestRandom 1000000 [] = Inl RangeError"
    by (rule genString_over_limit)
  moreover have "CHR 0x00 \<notin> declaredAlphabet [[]]" by (simp add: declaredAlphabet_def)
  ultimately show ?thesis using genString_greatest_empty_symbol by simp
qed

section \<open>What the directive patterns capture\<close>

lemma rmatch_Star_mem:
  "x \<in> set (rmatch (Star r) (s, cs)) \<longleftrightarrow>
     x = (s, cs) \<or> (\<exists>st1 \<in> set (rmatch r (s, cs)).
                     length (fst st1) < length s \<and> x \<in> set (rmatch (Star r) st1))"
  by (subst rmatch.simps) (auto split: if_splits)

lemma rmatch_suffix:
  "(s', cs') \<in> set (rmatch r st) \<Longrightarrow> (\<exists>p. fst st = p @ s') \<and> length cs' = length (snd st)"
proof (induction r st arbitrary: s' cs' rule: rmatch.induct)
  case (1 a s cs)
  then show ?case by (auto split: list.splits if_splits)
next
  case (2 r1 r2 s cs)
  from "2.prems" obtain st1 where st1: "st1 \<in> set (rmatch r1 (s, cs))"
    "(s', cs') \<in> set (rmatch r2 st1)" by auto
  from "2.IH"(1)[of "fst st1" "snd st1"] st1(1)
  have a: "(\<exists>p. s = p @ fst st1) \<and> length (snd st1) = length cs" by simp
  from "2.IH"(2)[OF st1(1) st1(2)]
  have b: "(\<exists>p. fst st1 = p @ s') \<and> length cs' = length (snd st1)" .
  from a b show ?case by auto
next
  case (3 r s cs)
  then show ?case by auto
next
  case (4 r s cs)
  from "4.prems" consider "(s', cs') = (s, cs)"
    | st1 where "st1 \<in> set (rmatch r (s, cs))" "length (fst st1) < length s"
        "(s', cs') \<in> set (rmatch (Star r) st1)"
    by (auto simp: rmatch_Star_mem[of _ r s cs])
  then show ?case
  proof cases
    case 1
    then show ?thesis by simp
  next
    case 2
    from "4.IH"(1)[of "fst st1" "snd st1"] 2(1)
    have a: "(\<exists>p. s = p @ fst st1) \<and> length (snd st1) = length cs" by simp
    from "4.IH"(2)[of st1 "fst st1" "snd st1" s' cs'] 2
    have b: "(\<exists>p. fst st1 = p @ s') \<and> length cs' = length (snd st1)" by simp
    from a b show ?thesis by auto
  qed
next
  case (5 s cs)
  then show ?case by simp
next
  case (6 k r s cs)
  then show ?case by auto
qed

lemma rmatch_caps_unchanged:
  "(s', cs') \<in> set (rmatch r st) \<Longrightarrow> k \<notin> groups r \<Longrightarrow> cs' ! k = snd st ! k"
proof (induction r st arbitrary: s' cs' rule: rmatch.induct)
  case (1 a s cs)
  then show ?case by (auto split: list.splits if_splits)
next
  case (2 r1 r2 s cs)
  from "2.prems" obtain st1 where st1: "st1 \<in> set (rmatch r1 (s, cs))"
    "(s', cs') \<in> set (rmatch r2 st1)" by auto
  from "2.IH"(1)[of "fst st1" "snd st1"] st1(1) "2.prems"(2)
  have a: "snd st1 ! k = cs ! k" by simp
  from "2.IH"(2)[OF st1(1) st1(2)] "2.prems"(2)
  have b: "cs' ! k = snd st1 ! k" by simp
  from a b show ?case by simp
next
  case (3 r s cs)
  then show ?case by auto
next
  case (4 r s cs)
  from "4.prems" consider "(s', cs') = (s, cs)"
    | st1 where "st1 \<in> set (rmatch r (s, cs))" "length (fst st1) < length s"
        "(s', cs') \<in> set (rmatch (Star r) st1)"
    by (auto simp: rmatch_Star_mem[of _ r s cs])
  then show ?case
  proof cases
    case 1
    then show ?thesis by simp
  next
    case 2
    from "4.IH"(1)[of "fst st1" "snd st1"] 2(1) "4.prems"(2)
    have a: "snd st1 ! k = cs ! k" by simp
    from "4.IH"(2)[of st1 "fst st1" "snd st1" s' cs'] 2 "4.prems"(2)
    have b: "cs' ! k = snd st1 ! k" by simp
    from a b show ?thesis by simp
  qed
next
  case (5 s cs)
  then show ?case by simp
next
  case (6 j r s cs)
  then show ?case by auto
qed

lemma rmatch_Star_Atom:
  "(s', cs') \<in> set (rmatch (Star (Atom a)) (s, cs))
     \<Longrightarrow> \<exists>p. s = p @ s' \<and> (\<forall>c \<in> set p. cmatch a c)"
proof (induction s arbitrary: s' cs')
  case Nil
  then show ?case by (simp add: rmatch_Star_mem[of _ "Atom a" "[]" cs])
next
  case (Cons x xs)
  from Cons.prems consider "(s', cs') = (x # xs, cs)"
    | "cmatch a x" "(s', cs') \<in> set (rmatch (Star (Atom a)) (xs, cs))"
    by (auto simp: rmatch_Star_mem[of _ "Atom a" "x # xs" cs] split: if_splits)
  then show ?case
  proof cases
    case 1
    then show ?thesis by simp
  next
    case 2
    from Cons.IH[OF 2(2)] obtain p where "xs = p @ s'" "\<forall>c \<in> set p. cmatch a c" by blast
    with 2(1) have "x # xs = (x # p) @ s' \<and> (\<forall>c \<in> set (x # p). cmatch a c)" by simp
    then show ?thesis by blast
  qed
qed


lemma groups_lits [simp]: "groups (lits f s) = {}"
  by (induction s) auto

lemma rmatch_Seq_mem:
  "x \<in> set (rmatch (Seq r1 r2) st) \<longleftrightarrow> (\<exists>st1 \<in> set (rmatch r1 st). x \<in> set (rmatch r2 st1))"
  by (cases st) auto

text \<open>The capture of the tail of a directive is a run of digits of the input.\<close>

lemma numberTail_capture:
  assumes "(s', cs') \<in> set (rmatch (numberTail k) (s, cs))" and "k < length cs"
  shows "\<exists>d. cs' ! k = Some d \<and> (\<forall>c \<in> set d. isDigit c \<and> c \<in> set s)"
proof -
  let ?rest = "Seq (Star (Atom NonSpace)) (Atom (Lit (CHR '']'')))"
  from assms(1) obtain st1 st2 where
    st1: "st1 \<in> set (rmatch (Opt (Atom NonSpace)) (s, cs))" and
    st2: "st2 \<in> set (rmatch (Group k (Star (Atom Digit))) st1)" and
    fin: "(s', cs') \<in> set (rmatch ?rest st2)"
    unfolding numberTail_def rmatch_Seq_mem by blast
  obtain s1 cs1 where [simp]: "st1 = (s1, cs1)" by (cases st1)
  from rmatch_suffix[of s1 cs1 _ "(s, cs)"] st1
  obtain p1 where p1: "s = p1 @ s1" and l1: "length cs1 = length cs" by auto
  from st2 obtain s2 cs2 where
    m: "(s2, cs2) \<in> set (rmatch (Star (Atom Digit)) (s1, cs1))" and
    st2': "st2 = (s2, cs2[k := Some (take (length s1 - length s2) s1)])"
    by auto
  from rmatch_Star_Atom[OF m] obtain d where d: "s1 = d @ s2" "\<forall>c \<in> set d. isDigit c"
    by auto
  from rmatch_suffix[OF m] have l2: "length cs2 = length cs1" by simp
  have "cs' ! k = snd st2 ! k"
    by (rule rmatch_caps_unchanged[OF fin]) simp
  with st2' d l1 l2 assms(2) have "cs' ! k = Some d" by simp
  moreover from d p1 have "\<forall>c \<in> set d. isDigit c \<and> c \<in> set s" by auto
  ultimately show ?thesis by blast
qed

lemma directive_capture:
  assumes "(s', cs') \<in> set (rmatch (Seq r (numberTail k)) (s, cs))" and "k < length cs"
  shows "\<exists>d. cs' ! k = Some d \<and> (\<forall>c \<in> set d. isDigit c \<and> c \<in> set s)"
proof -
  from assms(1) obtain st1 where
    st1: "st1 \<in> set (rmatch r (s, cs))" and fin: "(s', cs') \<in> set (rmatch (numberTail k) st1)"
    unfolding rmatch_Seq_mem by blast
  obtain s1 cs1 where [simp]: "st1 = (s1, cs1)" by (cases st1)
  from rmatch_suffix[of s1 cs1 r "(s, cs)"] st1
  obtain p1 where p1: "s = p1 @ s1" and l1: "length cs1 = length cs" by auto
  from numberTail_capture[of s' cs' k s1 cs1] fin l1 assms(2)
  obtain d where "cs' ! k = Some d" "\<forall>c \<in> set d. isDigit c \<and> c \<in> set s1" by auto
  with p1 show ?thesis by auto
qed

lemma execAt_Some:
  assumes "execAt r n v = Some m"
  shows "\<exists>s' cs'. (s', cs') \<in> set (rmatch r (v, replicate (Suc n) None))
            \<and> m = cs'[0 := Some (take (length v - length s') v)]"
  using assms by (auto simp: execAt_def split: list.splits)

lemma randchar_capture:
  assumes "execAt re_randchar 1 v = Some m"
  shows "\<exists>d. m ! 1 = Some d \<and> (\<forall>c \<in> set d. isDigit c \<and> c \<in> set v)"
proof -
  from execAt_Some[OF assms] obtain s' cs' where
    a: "(s', cs') \<in> set (rmatch re_randchar (v, replicate (Suc 1) None))"
    and m: "m = cs'[0 := Some (take (length v - length s') v)]" by blast
  from directive_capture[OF a[unfolded re_randchar_def]] m show ?thesis by simp
qed

lemma genaz_capture:
  assumes "execAt re_genaz 1 v = Some m"
  shows "\<exists>d. m ! 1 = Some d \<and> (\<forall>c \<in> set d. isDigit c \<and> c \<in> set v)"
proof -
  from execAt_Some[OF assms] obtain s' cs' where
    a: "(s', cs') \<in> set (rmatch re_genaz (v, replicate (Suc 1) None))"
    and m: "m = cs'[0 := Some (take (length v - length s') v)]" by blast
  from directive_capture[OF a[unfolded re_genaz_def]] m show ?thesis by simp
qed

lemma genpass_capture:
  assumes "execAt re_genpass 2 v = Some m"
  shows "\<exists>d. m ! 2 = Some d \<and> (\<forall>c \<in> set d. isDigit c \<and> c \<in> set v)"
proof -
  let ?tail = "Seq (Opt (Group 1 (lits Lit ''_strong''))) (numberTail 2)"
  from execAt_Some[OF assms] obtain s' cs' where
    a: "(s', cs') \<in> set (rmatch re_genpass (v, replicate (Suc 2) None))"
    and m: "m = cs'[0 := Some (take (length v - length s') v)]" by blast
  from a obtain st1 where
    st1: "st1 \<in> set (rmatch (lits Lit ''$[cd_genpass'') (v, replicate (Suc 2) None))" and
    fin: "(s', cs') \<in> set (rmatch ?tail st1)"
    unfolding re_genpass_def rmatch_Seq_mem[of _ "lits Lit ''$[cd_genpass''"] by blast
  obtain s1 cs1 where eq: "st1 = (s1, cs1)" by (cases st1)
  from rmatch_suffix[of s1 cs1 _ "(v, replicate (Suc 2) None)"] st1 eq
  obtain p1 where p1: "v = p1 @ s1" and l1: "length cs1 = 3" by auto
  from fin eq have fin': "(s', cs') \<in> set (rmatch ?tail (s1, cs1))" by (simp only:)
  from l1 have "2 < length cs1" by simp
  from directive_capture[OF fin' this]
  obtain d where "cs' ! 2 = Some d" "\<forall>c \<in> set d. isDigit c \<and> c \<in> set s1" by blast
  with p1 m show ?thesis by auto
qed

section \<open>Directives without digits\<close>

lemma startsWith_append: "startsWith v pre \<Longrightarrow> \<exists>rest. v = pre @ rest"
  unfolding startsWith_def by (metis append_take_drop_id)

lemma no_digits_capture:
  assumes "\<forall>c \<in> set v. \<not> isDigit c" and "\<forall>c \<in> set d. isDigit c \<and> c \<in> set v"
  shows "d = []"
proof (cases d)
  case Nil
  then show ?thesis .
next
  case (Cons x xs)
  with assms(2) have "isDigit x \<and> x \<in> set v" by simp
  with assms(1) show ?thesis by blast
qed

lemma Number_Nil: "Number [] = 0"
  by (simp add: Number_def)

lemma genAvailabilityZones_zero:
  "genAvailabilityZones w i 0 = (case availabilityZones w i of Inl e \<Rightarrow> Inl e | Inr azones \<Rightarrow> Inr [])"
  by (simp add: genAvailabilityZones_def split: sum.splits)

lemma genPassword_zero: "genPassword maxArgs rnd 0 b = Inr []"
  by (simp add: genPassword_def genString_zero)

lemma resolveParam_directive:
  assumes "ParameterValue p = Str raw" and "trim raw \<noteq> ''$[cd_default]''"
    and "trim raw \<noteq> ''$[cd_overridden]''"
  shows "resolveParam w t m i p = resolveDirective w i p (trim raw)"
  using assms
  by (simp add: resolveParam_def paramUseTemplateDefault_def paramIsOverridden_def)

lemma randchar_without_digits:
  assumes "startsWith v ''$[cd_randchar''" and "\<forall>c \<in> set v. \<not> isDigit c"
  shows "resolveDirective w i p v = Inr p"
proof (cases "execAt re_randchar 1 v")
  case None
  with assms(1) show ?thesis by (simp add: resolveDirective_def)
next
  case (Some matches)
  from randchar_capture[OF Some] obtain d where
    d: "matches ! 1 = Some d" "\<forall>c \<in> set d. isDigit c \<and> c \<in> set v" by blast
  from no_digits_capture[OF assms(2) d(2)] have "d = []" .
  with assms(1) Some d(1) show ?thesis by (simp add: resolveDirective_def)
qed

lemma genpass_without_digits:
  assumes "startsWith v ''$[cd_genpass''" and "\<forall>c \<in> set v. \<not> isDigit c"
  shows "resolveDirective w i p v = Inr (p\<lparr>ParameterValue := Str []\<rparr>)"
proof -
  from startsWith_append[OF assms(1)] obtain rest where v: "v = ''$[cd_genpass'' @ rest" by blast
  have n1: "\<not> startsWith v ''$[cd_randchar''" and n2: "\<not> startsWith v ''$[cd_genaz''"
    unfolding v startsWith_def by simp_all
  have num: "(case execAt re_genpass 2 v of None \<Rightarrow> 0
              | Some matches \<Rightarrow> (case matches ! 2 of None \<Rightarrow> 0 | Some d \<Rightarrow> Number d)) = 0"
  proof (cases "execAt re_genpass 2 v")
    case None
    then show ?thesis by simp
  next
    case (Some matches)
    from genpass_capture[OF Some] obtain d where
      d: "matches ! 2 = Some d" "\<forall>c \<in> set d. isDigit c \<and> c \<in> set v" by blast
    from no_digits_capture[OF assms(2) d(2)] have "d = []" .
    with Some d(1) show ?thesis by (simp add: Number_Nil)
  qed
  show ?thesis
    unfolding resolveDirective_def num using n1 n2 assms(1) by (simp add: genPassword_zero)
qed

lemma genaz_without_digits:
  assumes "startsWith v ''$[cd_genaz''" and "\<forall>c \<in> set v. \<not> isDigit c"
  shows "resolveDirective w i p v =
           (case availabilityZones w i of
              Inl e \<Rightarrow> Inl e | Inr azones \<Rightarrow> Inr (p\<lparr>ParameterValue := Str []\<rparr>))"
proof -
  from startsWith_append[OF assms(1)] obtain rest where v: "v = ''$[cd_genaz'' @ rest" by blast
  have n1: "\<not> startsWith v ''$[cd_randchar''"
    unfolding v startsWith_def by simp
  have num: "(case execAt re_genaz 1 v of None \<Rightarrow> 0
              | Some matches \<Rightarrow> (case matches ! 1 of None \<Rightarrow> 0 | Some d \<Rightarrow> Number d)) = 0"
  proof (cases "execAt re_genaz 1 v")
    case None
    then show ?thesis by simp
  next
    case (Some matches)
    from genaz_capture[OF Some] obtain d where
      d: "matches ! 1 = Some d" "\<forall>c \<in> set d. isDigit c \<and> c \<in> set v" by blast
    from no_digits_capture[OF assms(2) d(2)] have "d = []" .
    with Some d(1) show ?thesis by (simp add: Number_Nil)
  qed
  show ?thesis
    unfolding resolveDirective_def num using n1 assms(1)
    by (simp add: genAvailabilityZones_zero split: sum.splits)
qed

lemma not_default_overridden:
  assumes "startsWith v ''$[cd_randchar'' \<or> startsWith v ''$[cd_genpass'' \<or> startsWith v ''$[cd_genaz''"
  shows "v \<noteq> ''$[cd_default]'' \<and> v \<noteq> ''$[cd_overridden]''"
  using assms unfolding startsWith_def by auto

text \<open>
  C1, as the code has it. Let the trimmed raw value of an entry contain no digit. If it
  starts with \<open>$[cd_randchar\<close>, resolution leaves the entry unchanged. If it starts with
  \<open>$[cd_genpass\<close> or \<open>$[cd_genaz\<close>, the entry is not left unchanged: the count is 0, the
  password of length 0 or the join of no zones replaces the value, which becomes the empty
  string, and a failed listing of the zones rejects the entry.
\<close>

theorem directive_without_digits:
  assumes "ParameterValue p = Str raw" and "\<forall>c \<in> set (trim raw). \<not> isDigit c"
  shows "(startsWith (trim raw) ''$[cd_randchar'' \<longrightarrow> resolveParam w t m i p = Inr p)
       \<and> (startsWith (trim raw) ''$[cd_genpass'' \<longrightarrow>
            resolveParam w t m i p = Inr (p\<lparr>ParameterValue := Str []\<rparr>))
       \<and> (startsWith (trim raw) ''$[cd_genaz'' \<longrightarrow>
            resolveParam w t m i p =
              (case availabilityZones w i of
                 Inl e \<Rightarrow> Inl e | Inr azones \<Rightarrow> Inr (p\<lparr>ParameterValue := Str []\<rparr>)))"
proof (intro conjI impI)
  assume a: "startsWith (trim raw) ''$[cd_randchar''"
  with not_default_overridden[of "trim raw"] resolveParam_directive[OF assms(1)]
  have "resolveParam w t m i p = resolveDirective w i p (trim raw)" by blast
  with randchar_without_digits[OF a assms(2)] show "resolveParam w t m i p = Inr p" by simp
next
  assume a: "startsWith (trim raw) ''$[cd_genpass''"
  with not_default_overridden[of "trim raw"] resolveParam_directive[OF assms(1)]
  have "resolveParam w t m i p = resolveDirective w i p (trim raw)" by blast
  with genpass_without_digits[OF a assms(2)]
  show "resolveParam w t m i p = Inr (p\<lparr>ParameterValue := Str []\<rparr>)" by simp
next
  assume a: "startsWith (trim raw) ''$[cd_genaz''"
  with not_default_overridden[of "trim raw"] resolveParam_directive[OF assms(1)]
  have "resolveParam w t m i p = resolveDirective w i p (trim raw)" by blast
  with genaz_without_digits[OF a assms(2)]
  show "resolveParam w t m i p =
          (case availabilityZones w i of
             Inl e \<Rightarrow> Inl e | Inr azones \<Rightarrow> Inr (p\<lparr>ParameterValue := Str []\<rparr>))" by simp
qed

lemma parseParams_single:
  "parseParams w [p] t m = (case resolveParam w t m 0 p of Inl e \<Rightarrow> Inl e | Inr r \<Rightarrow> Inr [r])"
  by (simp add: parseParams_def Promise_all_def split: sum.splits)

lemma trim_genpass_strong8: "trim ''$[cd_genpass_strong8]'' = ''$[cd_genpass_strong8]''"
  by code_simp

lemma execAt_genpass_strong8:
  "execAt re_genpass 2 ''$[cd_genpass_strong8]''
     = Some [Some ''$[cd_genpass_strong8]'', Some ''_strong'', Some []]"
  by code_simp

lemma trim_genaz2: "trim ''$[cd_genaz2]'' = ''$[cd_genaz2]''"
  by code_simp

lemma execAt_genaz2: "execAt re_genaz 1 ''$[cd_genaz2]'' = Some [Some ''$[cd_genaz2]'', Some []]"
  by code_simp

text \<open>
  C2. The document of the scenario, \<open>$[cd_genpass_strong8]\<close> for the key \<open>DBPassword\<close>,
  resolves to the empty string whatever the random values are: \<open>\S?\<close> takes the digit 8,
  the group \<open>(\d*)\<close> captures nothing, and the password has length 0, not 8.
\<close>

theorem genpass_strong8_resolves_to_empty:
  "parseParams w [\<lparr>ParameterKey = ''DBPassword'', ParameterValue = Str ''$[cd_genpass_strong8]''\<rparr>]
       (Obj [(''DBPassword'', Obj [(''Default'', Str ''x'')])]) paramVariableMap
     = Inr [\<lparr>ParameterKey = ''DBPassword'', ParameterValue = Str []\<rparr>]"
  by (simp add: parseParams_single resolveParam_def paramUseTemplateDefault_def
      paramIsOverridden_def trim_genpass_strong8 resolveDirective_def startsWith_def
      execAt_genpass_strong8 Number_Nil genPassword_zero)

text \<open>
  C3. The document of the scenario, \<open>$[cd_genaz2]\<close> for the key \<open>Zones\<close>, with the zones
  \<open>a\<close>, \<open>b\<close>, \<open>c\<close> available, resolves to the empty string: \<open>\S?\<close> takes the digit 2,
  the count is 0, and no zone is selected.
\<close>

theorem genaz2_resolves_to_empty:
  "parseParams (w\<lparr>availabilityZones := threeZones\<rparr>)
       [\<lparr>ParameterKey = ''Zones'', ParameterValue = Str ''$[cd_genaz2]''\<rparr>]
       (Obj [(''Zones'', Obj [])]) paramVariableMap
     = Inr [\<lparr>ParameterKey = ''Zones'', ParameterValue = Str []\<rparr>]"
  by (simp add: parseParams_single resolveParam_def paramUseTemplateDefault_def
      paramIsOverridden_def trim_genaz2 resolveDirective_def startsWith_def
      execAt_genaz2[unfolded One_nat_def] Number_Nil genAvailabilityZones_zero threeZones_def)

text \<open>
  The optional \<open>\S?\<close> of the three patterns is greedy, so it takes the first character
  after the prefix even when that is a digit: of \<open>$[cd_randchar16]\<close> the pattern captures
  \<open>6\<close>. With a character between the prefix and the number the whole number is
  captured: \<open>$[cd_genpass_strong_8]\<close> resolves to eight characters of the strong alphabet
  (on an engine that accepts eight arguments in a call), and \<open>$[cd_genaz_2]\<close> to two distinct names of the three zones joined by a comma, when
  the sort of the engine returns a permutation of the array.
\<close>

lemma execAt_randchar16:
  "execAt re_randchar 1 ''$[cd_randchar16]'' = Some [Some ''$[cd_randchar16]'', Some ''6'']"
  by code_simp

lemma trim_genpass_strong_8: "trim ''$[cd_genpass_strong_8]'' = ''$[cd_genpass_strong_8]''"
  by code_simp

lemma execAt_genpass_strong_8:
  "execAt re_genpass 2 ''$[cd_genpass_strong_8]''
     = Some [Some ''$[cd_genpass_strong_8]'', Some ''_strong'', Some ''8'']"
  by code_simp

lemma Number_8: "Number ''8'' = 8"
  by (simp add: Number_def digitValue_def)

lemma Number_2: "Number ''2'' = 2"
  by (simp add: Number_def digitValue_def)

lemma genpass_strong_with_separator:
  assumes "8 \<le> maxArguments w"
  shows "\<exists>s. parseParams w
          [\<lparr>ParameterKey = ''DBPassword'', ParameterValue = Str ''$[cd_genpass_strong_8]''\<rparr>]
          (Obj [(''DBPassword'', Obj [(''Default'', Str ''x'')])]) paramVariableMap
        = Inr [\<lparr>ParameterKey = ''DBPassword'', ParameterValue = Str s\<rparr>]
      \<and> length s = 8 \<and> (\<forall>c \<in> set s. c \<in> declaredAlphabet symbols)"
proof -
  have "\<forall>sym \<in> set symbols. length sym = 1" by (simp add: symbols_def)
  from genString_shape[OF assms this, of "random w 0"] obtain s where
    s: "genString (maxArguments w) (random w 0) 8 symbols = Inr s" "length s = 8"
       "\<forall>c \<in> set s. c \<in> declaredAlphabet symbols" by blast
  have "parseParams w
          [\<lparr>ParameterKey = ''DBPassword'', ParameterValue = Str ''$[cd_genpass_strong_8]''\<rparr>]
          (Obj [(''DBPassword'', Obj [(''Default'', Str ''x'')])]) paramVariableMap
        = Inr [\<lparr>ParameterKey = ''DBPassword'', ParameterValue = Str s\<rparr>]"
    by (simp add: parseParams_single resolveParam_def paramUseTemplateDefault_def
      paramIsOverridden_def trim_genpass_strong_8 resolveDirective_def startsWith_def
      execAt_genpass_strong_8 Number_8 genPassword_def s(1))
  with s(2,3) show ?thesis by blast
qed

lemma trim_genaz_2: "trim ''$[cd_genaz_2]'' = ''$[cd_genaz_2]''"
  by code_simp

lemma execAt_genaz_2:
  "execAt re_genaz 1 ''$[cd_genaz_2]'' = Some [Some ''$[cd_genaz_2]'', Some ''2'']"
  by code_simp

lemma take_two_of_three:
  assumes "length ys = 3" and "distinct ys" and "set ys = set zs"
  shows "\<exists>x y. join '','' (take 2 ys) = x @ '','' @ y \<and> x \<noteq> y \<and> x \<in> set zs \<and> y \<in> set zs"
proof -
  from assms(1) obtain y0 y1 y2 where ys: "ys = [y0, y1, y2]"
    by (cases ys; cases "tl ys"; cases "tl (tl ys)") auto
  with assms(2,3) have "join '','' (take 2 ys) = y0 @ '','' @ y1" "y0 \<noteq> y1"
    "y0 \<in> set zs" "y1 \<in> set zs" by (auto simp: numeral_2_eq_2)
  then show ?thesis by blast
qed

lemma genaz_with_separator:
  assumes "availabilityZones w 0 = Inr [''a'', ''b'', ''c'']"
    and "\<And>cmp xs. length (arraySort w cmp xs) = length xs
                    \<and> set (arraySort w cmp xs) = set xs
                    \<and> (distinct xs \<longrightarrow> distinct (arraySort w cmp xs))"
  shows "\<exists>x y. parseParams w
          [\<lparr>ParameterKey = ''Zones'', ParameterValue = Str ''$[cd_genaz_2]''\<rparr>]
          (Obj [(''Zones'', Obj [])]) paramVariableMap
        = Inr [\<lparr>ParameterKey = ''Zones'', ParameterValue = Str (x @ '','' @ y)\<rparr>]
      \<and> x \<noteq> y \<and> x \<in> {''a'', ''b'', ''c''} \<and> y \<in> {''a'', ''b'', ''c''}"
proof -
  let ?ys = "arraySort w (shuffleCompare (random w 0)) [''a'', ''b'', ''c'']"
  from assms(2)[of "shuffleCompare (random w 0)" "[''a'', ''b'', ''c'']"]
  have "length ?ys = 3" "distinct ?ys" "set ?ys = set [''a'', ''b'', ''c'']" by simp_all
  from take_two_of_three[OF this] obtain x y where
    xy: "join '','' (take 2 ?ys) = x @ '','' @ y" "x \<noteq> y"
        "x \<in> set [''a'', ''b'', ''c'']" "y \<in> set [''a'', ''b'', ''c'']" by blast
  have "parseParams w
          [\<lparr>ParameterKey = ''Zones'', ParameterValue = Str ''$[cd_genaz_2]''\<rparr>]
          (Obj [(''Zones'', Obj [])]) paramVariableMap
        = Inr [\<lparr>ParameterKey = ''Zones'', ParameterValue = Str (x @ '','' @ y)\<rparr>]"
    using assms(1) xy(1)
    by (simp add: parseParams_single resolveParam_def paramUseTemplateDefault_def
      paramIsOverridden_def trim_genaz_2 resolveDirective_def startsWith_def
      execAt_genaz_2[unfolded One_nat_def] Number_2 genAvailabilityZones_def)
  with xy(2,3,4) show ?thesis by auto
qed

lemma trim_genpass: "trim ''$[cd_genpass]'' = ''$[cd_genpass]''"
  by code_simp

lemma trim_genaz: "trim ''$[cd_genaz]'' = ''$[cd_genaz]''"
  by code_simp

lemma trim_randchar: "trim ''$[cd_randchar]'' = ''$[cd_randchar]''"
  by code_simp

text \<open>
  C1 as stated fails: \<open>$[cd_genpass]\<close> has a directive prefix and no digit, and its value
  does not stay as it is, it becomes the empty string.
\<close>

theorem directive_without_digits_counterexample:
  "startsWith (trim ''$[cd_genpass]'') ''$[cd_genpass''
   \<and> filter isDigit (trim ''$[cd_genpass]'') = []
   \<and> parseParams exampleWorld
        [\<lparr>ParameterKey = ''AdminPassword'', ParameterValue = Str ''$[cd_genpass]''\<rparr>] (Obj []) []
       = Inr [\<lparr>ParameterKey = ''AdminPassword'', ParameterValue = Str []\<rparr>]"
proof -
  have a: "startsWith ''$[cd_genpass]'' ''$[cd_genpass''" by (simp add: startsWith_def)
  have b: "\<forall>c \<in> set ''$[cd_genpass]''. \<not> isDigit c" by (simp add: isDigit_def)
  have c: "filter isDigit ''$[cd_genpass]'' = []" by (simp add: isDigit_def)
  have "resolveParam exampleWorld (Obj []) [] 0
          \<lparr>ParameterKey = ''AdminPassword'', ParameterValue = Str ''$[cd_genpass]''\<rparr>
        = resolveDirective exampleWorld 0
          \<lparr>ParameterKey = ''AdminPassword'', ParameterValue = Str ''$[cd_genpass]''\<rparr>
          ''$[cd_genpass]''"
    using resolveParam_directive[of _ "''$[cd_genpass]''"] by (simp add: trim_genpass)
  with genpass_without_digits[OF a b] a c show ?thesis
    by (simp add: parseParams_single trim_genpass)
qed

theorem directive_without_digits_witness:
  "resolveParam exampleWorld (Obj []) [] 0
      \<lparr>ParameterKey = ''Suffix'', ParameterValue = Str ''$[cd_randchar]''\<rparr>
     = Inr \<lparr>ParameterKey = ''Suffix'', ParameterValue = Str ''$[cd_randchar]''\<rparr>
   \<and> resolveParam exampleWorld (Obj []) [] 0
      \<lparr>ParameterKey = ''AdminPassword'', ParameterValue = Str ''$[cd_genpass]''\<rparr>
     = Inr \<lparr>ParameterKey = ''AdminPassword'', ParameterValue = Str []\<rparr>
   \<and> resolveParam exampleWorld (Obj []) [] 0
      \<lparr>ParameterKey = ''Zones'', ParameterValue = Str ''$[cd_genaz]''\<rparr>
     = Inr \<lparr>ParameterKey = ''Zones'', ParameterValue = Str []\<rparr>"
  using directive_without_digits
          [of "\<lparr>ParameterKey = ''Suffix'', ParameterValue = Str ''$[cd_randchar]''\<rparr>"
              "''$[cd_randchar]''" exampleWorld "Obj []" "[]" 0]
        directive_without_digits
          [of "\<lparr>ParameterKey = ''AdminPassword'', ParameterValue = Str ''$[cd_genpass]''\<rparr>"
              "''$[cd_genpass]''" exampleWorld "Obj []" "[]" 0]
        directive_without_digits
          [of "\<lparr>ParameterKey = ''Zones'', ParameterValue = Str ''$[cd_genaz]''\<rparr>"
              "''$[cd_genaz]''" exampleWorld "Obj []" "[]" 0]
  by (simp add: trim_randchar trim_genpass trim_genaz isDigit_def startsWith_def
      exampleWorld_def threeZones_def)

section \<open>The ends of the ranges\<close>

lemma char_of_small:
  assumes "(n::nat) < 256" and "char_of n = c"
  shows "n = of_char c"
proof -
  from assms(2) have "(of_char (char_of n) :: nat) = of_char c" by (rule arg_cong)
  with assms(1) show ?thesis by simp
qed

lemma baseCodes_char:
  assumes "n \<in> baseCodes"
  shows "char_of n \<noteq> CHR ''9'' \<and> char_of n \<noteq> CHR ''Z'' \<and> char_of n \<noteq> CHR ''z''"
proof -
  from assms have lt: "n < 256" by (auto simp: baseCodes_def)
  from assms have ne: "n \<noteq> 57 \<and> n \<noteq> 90 \<and> n \<noteq> 122" by (auto simp: baseCodes_def)
  have "char_of n \<noteq> CHR ''9''"
  proof
    assume "char_of n = CHR ''9''"
    from char_of_small[OF lt this] have "n = 57" by simp
    with ne show False by simp
  qed
  moreover have "char_of n \<noteq> CHR ''Z''"
  proof
    assume "char_of n = CHR ''Z''"
    from char_of_small[OF lt this] have "n = 90" by simp
    with ne show False by simp
  qed
  moreover have "char_of n \<noteq> CHR ''z''"
  proof
    assume "char_of n = CHR ''z''"
    from char_of_small[OF lt this] have "n = 122" by simp
    with ne show False by simp
  qed
  ultimately show ?thesis by blast
qed

text \<open>
  C8. The claim that every character of the base alphabet can be drawn does not hold of the
  code: \<open>Math.floor(Math.random() * (range[1] - range[0])) + range[0]\<close> never reaches
  \<open>range[1]\<close>, so whatever the random values are, the characters \<open>9\<close>, \<open>Z\<close> and
  \<open>z\<close> do not occur in a generated string.
\<close>

theorem genString_never_range_end:
  assumes "genString maxArgs rnd L [] = Inr s"
  shows "CHR ''9'' \<notin> set s \<and> CHR ''Z'' \<notin> set s \<and> CHR ''z'' \<notin> set s"
proof -
  from genString_Inr[OF assms] obtain codes where
    codes: "s = map char_of codes" and c0: "set codes \<subseteq> baseCodes" by auto
  have key: "\<And>c. c \<in> set s \<Longrightarrow> c \<noteq> CHR ''9'' \<and> c \<noteq> CHR ''Z'' \<and> c \<noteq> CHR ''z''"
  proof -
    fix c assume "c \<in> set s"
    with codes have "c \<in> char_of ` set codes" by simp
    then obtain n where n: "n \<in> set codes" "c = char_of n" by (rule imageE)
    from c0 n(1) have "n \<in> baseCodes" by (rule subsetD)
    from baseCodes_char[OF this] n(2)
    show "c \<noteq> CHR ''9'' \<and> c \<noteq> CHR ''Z'' \<and> c \<noteq> CHR ''z''" by simp
  qed
  show ?thesis
  proof (intro conjI notI)
    assume "CHR ''9'' \<in> set s"
    from key[OF this] show False by simp
  next
    assume "CHR ''Z'' \<in> set s"
    from key[OF this] show False by simp
  next
    assume "CHR ''z'' \<in> set s"
    from key[OF this] show False by simp
  qed
qed

lemma genString_greatest: "genString 130000 greatestRandom (Suc 0) [] = Inr ''y''"
proof -
  have sz: "length ranges + (if length ([] :: string list) > 0 then 1 else 0) = 3"
    by (simp add: ranges_def)
  show ?thesis
    unfolding genString_def sz genString_loop_const[of greatestRandom "[]" 3, OF genCharCode_greatest]
    by (simp add: fromCharCode_def char_of_eq_iff)
qed

theorem genString_never_range_end_witness:
  "genString 130000 greatestRandom 1 [] = Inr ''y'' \<and> CHR ''z'' \<notin> set ''y''"
  using genString_never_range_end [of 130000 greatestRandom 1 "''y''"] genString_greatest
  by simp

section \<open>Decimal numerals and the message for too few zones\<close>

lemma foldl_digits_snoc:
  "foldl (\<lambda>n c. 10 * n + digitValue c) 0 (xs @ [c])
     = 10 * foldl (\<lambda>n c. 10 * n + digitValue c) 0 xs + digitValue c"
  by simp

lemma digitValue_char_of: "d < 10 \<Longrightarrow> digitValue (char_of (48 + d)) = d"
  by (simp add: digitValue_def)

lemma Number_digitsOf: "n < fuel \<Longrightarrow> Number (digitsOf fuel n) = n"
proof (induction fuel n rule: digitsOf.induct)
  case (1 n)
  then show ?case by simp
next
  case (2 fuel n)
  show ?case
  proof (cases "n < 10")
    case True
    then show ?thesis by (simp add: Number_def digitValue_char_of)
  next
    case False
    with "2.prems" have "n div 10 < fuel" by simp
    with "2.IH" False have "Number (digitsOf fuel (n div 10)) = n div 10" by simp
    with False show ?thesis by (simp add: Number_def digitValue_char_of)
  qed
qed

lemma Number_natToString: "Number (natToString n) = n"
  unfolding natToString_def by (rule Number_digitsOf) simp

text \<open>
  C6. When the listing of the zones succeeds with fewer zones than requested,
  \<open>genAvailabilityZones\<close> throws an \<open>Error\<close> whose message holds the region of
  \<open>AWS_DEFAULT_REGION\<close>, the requested count and the number of zones in decimal.
\<close>

theorem not_enough_zones:
  assumes "availabilityZones w i = Inr azones" and "length azones < num"
  shows "genAvailabilityZones w i num =
           Inl (Error (''parameter value generation error:''
                       @ '' not enough availability zones in AWS region: ''
                       @ AWS_DEFAULT_REGION w @ ''.''
                       @ '' request: '' @ natToString num
                       @ '', got: '' @ natToString (length azones)))"
  using assms by (simp add: genAvailabilityZones_def notEnoughZones_def)

lemma natToString_4: "natToString 4 = ''4''"
  by code_simp

lemma natToString_length_3: "natToString (length [''a'', ''b'', ''c'']) = ''3''"
  by code_simp

theorem not_enough_zones_witness:
  "genAvailabilityZones exampleWorld 0 4 =
     Inl (Error ''parameter value generation error: not enough availability zones in AWS region: us-east-1. request: 4, got: 3'')"
proof -
  have a: "availabilityZones exampleWorld 0 = Inr [''a'', ''b'', ''c'']"
    by (simp add: exampleWorld_def threeZones_def)
  have b: "length [''a'', ''b'', ''c''] < 4" by simp
  have r: "AWS_DEFAULT_REGION exampleWorld = ''us-east-1''" by (simp add: exampleWorld_def)
  show ?thesis
    unfolding not_enough_zones [OF a b] r natToString_4 natToString_length_3 by simp
qed

section \<open>Resolved values are strings\<close>

lemma resolveDirective_cases:
  assumes "resolveDirective w i p v = Inr r"
  shows "r = p \<or> (\<exists>s. r = p\<lparr>ParameterValue := Str s\<rparr>)"
proof -
  consider (rc) "startsWith v ''$[cd_randchar''"
    | (az) "\<not> startsWith v ''$[cd_randchar''" "startsWith v ''$[cd_genaz''"
    | (gp) "\<not> startsWith v ''$[cd_randchar''" "\<not> startsWith v ''$[cd_genaz''"
        "startsWith v ''$[cd_genpass''"
    | (lit) "\<not> startsWith v ''$[cd_randchar''" "\<not> startsWith v ''$[cd_genaz''"
        "\<not> startsWith v ''$[cd_genpass''"
    by blast
  then show ?thesis
  proof cases
    case rc
    with assms show ?thesis
      by (auto simp: resolveDirective_def split: option.splits if_splits sum.splits)
  next
    case az
    with assms show ?thesis
      by (auto simp: resolveDirective_def split: sum.splits)
  next
    case gp
    with assms show ?thesis
      by (auto simp: resolveDirective_def split: sum.splits)
  next
    case lit
    with assms show ?thesis by (simp add: resolveDirective_def)
  qed
qed

lemma resolveDirective_string:
  assumes "resolveDirective w i p v = Inr r" and "isString (ParameterValue p)"
  shows "isString (ParameterValue r)"
  using resolveDirective_cases[OF assms(1)] assms(2) by (auto simp: isString_def)

lemma resolveParam_Str:
  assumes "ParameterValue p = Str raw"
  shows "resolveParam w t m i p =
           (if raw \<noteq> [] \<and> trim raw = ''$[cd_default]''
            then (case getTemplateDefault t (ParameterKey p) of
                    Inl e \<Rightarrow> Inl e
                  | Inr d \<Rightarrow> Inr (p\<lparr>ParameterValue := Str d\<rparr>))
            else if raw \<noteq> [] \<and> trim raw = ''$[cd_overridden]''
            then Inr (p\<lparr>ParameterValue := Str (genOverriddenParam (ParameterKey p) m)\<rparr>)
            else resolveDirective w i p (trim raw))"
  using assms
  by (simp add: resolveParam_def paramUseTemplateDefault_def paramIsOverridden_def)

lemma resolveParam_non_string:
  assumes "\<forall>s. ParameterValue p \<noteq> Str s"
  shows "resolveParam w t m i p = Inl TypeError"
  using assms
  by (cases "ParameterValue p")
     (auto simp: resolveParam_def paramUseTemplateDefault_def paramIsOverridden_def)

lemma resolveParam_string:
  assumes "resolveParam w t m i p = Inr r"
  shows "isString (ParameterValue r)"
proof (cases "\<exists>raw. ParameterValue p = Str raw")
  case False
  then have "resolveParam w t m i p = Inl TypeError" by (intro resolveParam_non_string) simp
  with assms show ?thesis by simp
next
  case True
  then obtain raw where raw: "ParameterValue p = Str raw" by blast
  then have s: "isString (ParameterValue p)" by (simp add: isString_def)
  show ?thesis
  proof (cases "raw \<noteq> [] \<and> trim raw = ''$[cd_default]''")
    case True
    with assms resolveParam_Str[OF raw, of w t m i]
    have "\<exists>d. r = p\<lparr>ParameterValue := Str d\<rparr>"
      by (cases "getTemplateDefault t (ParameterKey p)") auto
    then show ?thesis by (auto simp: isString_def)
  next
    case nd: False
    show ?thesis
    proof (cases "raw \<noteq> [] \<and> trim raw = ''$[cd_overridden]''")
      case True
      with nd assms resolveParam_Str[OF raw, of w t m i]
      have "r = p\<lparr>ParameterValue := Str (genOverriddenParam (ParameterKey p) m)\<rparr>"
        by (simp split: if_splits)
      then show ?thesis by (simp add: isString_def)
    next
      case False
      with nd assms resolveParam_Str[OF raw, of w t m i]
      have "resolveDirective w i p (trim raw) = Inr r" by (simp split: if_splits)
      from resolveDirective_string[OF this s] show ?thesis .
    qed
  qed
qed

lemma lefts_Nil: "lefts rs = [] \<Longrightarrow> map Inr (rights rs) = rs"
  by (induction rs rule: lefts.induct) auto

lemma Promise_all_Inr:
  assumes "Promise_all rs = Inr xs"
  shows "rs = map Inr xs"
proof -
  from assms have "lefts rs = []" "xs = rights rs"
    by (auto simp: Promise_all_def split: list.splits)
  with lefts_Nil show ?thesis by metis
qed

lemma parseParams_Inr:
  assumes "parseParams w paramJSON t m = Inr rs"
  shows "length rs = length paramJSON \<and> (\<forall>r \<in> set rs. isString (ParameterValue r))"
proof -
  let ?f = "\<lambda>(i, p). resolveParam w t m i p"
  let ?zs = "zip [0 ..< length paramJSON] paramJSON"
  from Promise_all_Inr[OF assms[unfolded parseParams_def]]
  have eq: "map ?f ?zs = map Inr rs" .
  then have "length (map ?f ?zs) = length (map Inr rs)" by simp
  then have len: "length rs = length paramJSON" by simp
  have "\<forall>r \<in> set rs. isString (ParameterValue r)"
  proof
    fix r assume "r \<in> set rs"
    then have "Inr r \<in> set (map ?f ?zs)" unfolding eq by simp
    then obtain i p where "resolveParam w t m i p = Inr r" by auto
    then show "isString (ParameterValue r)" by (rule resolveParam_string)
  qed
  with len show ?thesis by simp
qed

text \<open>
  The default of a key that the \<open>Parameters\<close> object does not declare, or declares with a
  descriptor that has no \<open>Default\<close>, is the empty string.
\<close>

lemma getTemplateDefault_absent:
  assumes "map_of fs paramKey = None
           \<or> (\<exists>ds. map_of fs paramKey = Some (Obj ds) \<and> map_of ds ''Default'' = None)"
  shows "getTemplateDefault (Obj fs) paramKey = Inr []"
  using assms by (auto simp: getTemplateDefault_def)

text \<open>Without a \<open>Parameters\<close> section the read of the default throws.\<close>

lemma getTemplateDefault_no_section: "getTemplateDefault Undefined paramKey = Inl TypeError"
  by (simp add: getTemplateDefault_def)

lemma cd_default_absent:
  assumes "ParameterValue p = Str raw" and "trim raw = ''$[cd_default]''"
    and "map_of fs (ParameterKey p) = None
         \<or> (\<exists>ds. map_of fs (ParameterKey p) = Some (Obj ds) \<and> map_of ds ''Default'' = None)"
  shows "resolveParam w (Obj fs) m i p = Inr (p\<lparr>ParameterValue := Str []\<rparr>)"
proof -
  from assms(2) have "raw \<noteq> []" by (auto simp: trim_def)
  with assms(1,2) have "paramUseTemplateDefault p = Inr True"
    by (simp add: paramUseTemplateDefault_def)
  moreover from assms(3) have "getTemplateDefault (Obj fs) (ParameterKey p) = Inr []"
    by (rule getTemplateDefault_absent)
  ultimately show ?thesis by (simp add: resolveParam_def)
qed

lemma cd_overridden_absent:
  assumes "ParameterValue p = Str raw" and "trim raw = ''$[cd_overridden]''"
    and "Map_get m (ParameterKey p) = None"
  shows "resolveParam w t m i p = Inr (p\<lparr>ParameterValue := Str []\<rparr>)"
proof -
  from assms(2) have "raw \<noteq> []" by (auto simp: trim_def)
  with assms(1,2) have "paramUseTemplateDefault p = Inr False" "paramIsOverridden p = Inr True"
    by (simp_all add: paramUseTemplateDefault_def paramIsOverridden_def)
  moreover from assms(3) have "genOverriddenParam (ParameterKey p) m = []"
    by (simp add: genOverriddenParam_def)
  ultimately show ?thesis by (simp add: resolveParam_def)
qed

text \<open>
  C5, as the code has it. When \<open>parseParams\<close> is fulfilled, it yields as many entries as
  the document has and the value of every one is a string. When the template has a
  \<open>Parameters\<close> object, an entry \<open>$[cd_default]\<close> whose key the object does not declare,
  or declares with a descriptor without \<open>Default\<close>, resolves to the empty string. An entry
  \<open>$[cd_overridden]\<close> whose key the override table does not hold resolves to the empty
  string. Both are fulfilled, not rejected.
\<close>

theorem resolved_values_are_strings:
  "(parseParams w paramJSON t m = Inr rs \<longrightarrow>
      length rs = length paramJSON \<and> (\<forall>r \<in> set rs. isString (ParameterValue r)))
   \<and> (ParameterValue p = Str raw \<and> trim raw = ''$[cd_default]''
        \<and> (map_of fs (ParameterKey p) = None
             \<or> (\<exists>ds. map_of fs (ParameterKey p) = Some (Obj ds)
                      \<and> map_of ds ''Default'' = None))
       \<longrightarrow> resolveParam w (Obj fs) m i p = Inr (p\<lparr>ParameterValue := Str []\<rparr>))
   \<and> (ParameterValue p = Str raw \<and> trim raw = ''$[cd_overridden]''
        \<and> Map_get m (ParameterKey p) = None
       \<longrightarrow> resolveParam w t m i p = Inr (p\<lparr>ParameterValue := Str []\<rparr>))"
proof (intro conjI impI)
  assume "parseParams w paramJSON t m = Inr rs"
  from parseParams_Inr[OF this]
  show "length rs = length paramJSON" and "\<forall>r \<in> set rs. isString (ParameterValue r)"
    by simp_all
next
  assume a: "ParameterValue p = Str raw \<and> trim raw = ''$[cd_default]''
        \<and> (map_of fs (ParameterKey p) = None
             \<or> (\<exists>ds. map_of fs (ParameterKey p) = Some (Obj ds)
                      \<and> map_of ds ''Default'' = None))"
  then have "ParameterValue p = Str raw" and "trim raw = ''$[cd_default]''"
    and "map_of fs (ParameterKey p) = None
         \<or> (\<exists>ds. map_of fs (ParameterKey p) = Some (Obj ds) \<and> map_of ds ''Default'' = None)"
    by simp_all
  then show "resolveParam w (Obj fs) m i p = Inr (p\<lparr>ParameterValue := Str []\<rparr>)"
    by (rule cd_default_absent)
next
  assume a: "ParameterValue p = Str raw \<and> trim raw = ''$[cd_overridden]''
        \<and> Map_get m (ParameterKey p) = None"
  then have "ParameterValue p = Str raw" and "trim raw = ''$[cd_overridden]''"
    and "Map_get m (ParameterKey p) = None"
    by simp_all
  then show "resolveParam w t m i p = Inr (p\<lparr>ParameterValue := Str []\<rparr>)"
    by (rule cd_overridden_absent)
qed

lemma trim_cd_default: "trim ''$[cd_default]'' = ''$[cd_default]''"
  by code_simp

lemma trim_cd_overridden: "trim ''$[cd_overridden]'' = ''$[cd_overridden]''"
  by code_simp

lemma parseParams_two:
  "parseParams w [p1, p2] t m = Promise_all [resolveParam w t m 0 p1, resolveParam w t m 1 p2]"
  by (simp add: parseParams_def)

lemma parseParams_defaults_example:
  "parseParams exampleWorld
     [\<lparr>ParameterKey = ''VpcCidr'', ParameterValue = Str ''$[cd_default]''\<rparr>,
      \<lparr>ParameterKey = ''KeyName'', ParameterValue = Str ''$[cd_overridden]''\<rparr>]
     (Obj [(''InstanceType'', Obj [])]) []
   = Inr [\<lparr>ParameterKey = ''VpcCidr'', ParameterValue = Str []\<rparr>,
          \<lparr>ParameterKey = ''KeyName'', ParameterValue = Str []\<rparr>]"
proof -
  have a: "resolveParam exampleWorld (Obj [(''InstanceType'', Obj [])]) [] 0
        \<lparr>ParameterKey = ''VpcCidr'', ParameterValue = Str ''$[cd_default]''\<rparr>
       = Inr \<lparr>ParameterKey = ''VpcCidr'', ParameterValue = Str []\<rparr>"
    using cd_default_absent[of "\<lparr>ParameterKey = ''VpcCidr'', ParameterValue = Str ''$[cd_default]''\<rparr>"
        "''$[cd_default]''" "[(''InstanceType'', Obj [])]" exampleWorld "[]" 0]
    by (simp add: trim_cd_default)
  have b: "resolveParam exampleWorld (Obj [(''InstanceType'', Obj [])]) [] 1
        \<lparr>ParameterKey = ''KeyName'', ParameterValue = Str ''$[cd_overridden]''\<rparr>
       = Inr \<lparr>ParameterKey = ''KeyName'', ParameterValue = Str []\<rparr>"
    using cd_overridden_absent[of "\<lparr>ParameterKey = ''KeyName'', ParameterValue = Str ''$[cd_overridden]''\<rparr>"
        "''$[cd_overridden]''" "[]" exampleWorld "Obj [(''InstanceType'', Obj [])]" 1]
    by (simp add: trim_cd_overridden Map_get_def)
  show ?thesis unfolding parseParams_two a b by (simp add: Promise_all_def)
qed

theorem resolved_values_are_strings_witness:
  "parseParams exampleWorld
     [\<lparr>ParameterKey = ''VpcCidr'', ParameterValue = Str ''$[cd_default]''\<rparr>,
      \<lparr>ParameterKey = ''KeyName'', ParameterValue = Str ''$[cd_overridden]''\<rparr>]
     (Obj [(''InstanceType'', Obj [])]) []
   = Inr [\<lparr>ParameterKey = ''VpcCidr'', ParameterValue = Str []\<rparr>,
          \<lparr>ParameterKey = ''KeyName'', ParameterValue = Str []\<rparr>]
   \<and> isString (ParameterValue \<lparr>ParameterKey = ''VpcCidr'', ParameterValue = Str []\<rparr>)
   \<and> resolveParam exampleWorld (Obj [(''InstanceType'', Obj [])]) [] 0
        \<lparr>ParameterKey = ''VpcCidr'', ParameterValue = Str ''$[cd_default]''\<rparr>
       = Inr \<lparr>ParameterKey = ''VpcCidr'', ParameterValue = Str []\<rparr>
   \<and> resolveParam exampleWorld (Obj [(''VpcCidr'', Obj [(''Type'', Str ''String'')])]) [] 0
        \<lparr>ParameterKey = ''VpcCidr'', ParameterValue = Str ''$[cd_default]''\<rparr>
       = Inr \<lparr>ParameterKey = ''VpcCidr'', ParameterValue = Str []\<rparr>
   \<and> resolveParam exampleWorld (Obj [(''InstanceType'', Obj [])]) [] 1
        \<lparr>ParameterKey = ''KeyName'', ParameterValue = Str ''$[cd_overridden]''\<rparr>
       = Inr \<lparr>ParameterKey = ''KeyName'', ParameterValue = Str []\<rparr>"
proof -
  let ?doc = "[\<lparr>ParameterKey = ''VpcCidr'', ParameterValue = Str ''$[cd_default]''\<rparr>,
      \<lparr>ParameterKey = ''KeyName'', ParameterValue = Str ''$[cd_overridden]''\<rparr>]"
  let ?rs = "[\<lparr>ParameterKey = ''VpcCidr'', ParameterValue = Str []\<rparr>,
      \<lparr>ParameterKey = ''KeyName'', ParameterValue = Str []\<rparr>]"
  let ?p1 = "\<lparr>ParameterKey = ''VpcCidr'', ParameterValue = Str ''$[cd_default]''\<rparr>"
  let ?p2 = "\<lparr>ParameterKey = ''KeyName'', ParameterValue = Str ''$[cd_overridden]''\<rparr>"
  let ?t1 = "Obj [(''InstanceType'', Obj [])]"
  note thm1 = resolved_values_are_strings
      [of exampleWorld ?doc ?t1 "[]" ?rs ?p1 "''$[cd_default]''" "[(''InstanceType'', Obj [])]" 0]
  note thm2 = resolved_values_are_strings
      [of exampleWorld ?doc ?t1 "[]" ?rs ?p1 "''$[cd_default]''"
          "[(''VpcCidr'', Obj [(''Type'', Str ''String'')])]" 0]
  note thm3 = resolved_values_are_strings
      [of exampleWorld ?doc ?t1 "[]" ?rs ?p2 "''$[cd_overridden]''" "[]" 1]
  have "length ?rs = length ?doc \<and> (\<forall>r \<in> set ?rs. isString (ParameterValue r))"
    using thm1[THEN conjunct1] parseParams_defaults_example by (rule mp)
  then have a: "isString (ParameterValue \<lparr>ParameterKey = ''VpcCidr'', ParameterValue = Str []\<rparr>)"
    by simp
  have b: "resolveParam exampleWorld ?t1 [] 0 ?p1
       = Inr \<lparr>ParameterKey = ''VpcCidr'', ParameterValue = Str []\<rparr>"
    using thm1[THEN conjunct2, THEN conjunct1] by (simp add: trim_cd_default)
  have c: "resolveParam exampleWorld (Obj [(''VpcCidr'', Obj [(''Type'', Str ''String'')])]) [] 0 ?p1
       = Inr \<lparr>ParameterKey = ''VpcCidr'', ParameterValue = Str []\<rparr>"
    using thm2[THEN conjunct2, THEN conjunct1] by (simp add: trim_cd_default)
  have d: "resolveParam exampleWorld ?t1 [] 1 ?p2
       = Inr \<lparr>ParameterKey = ''KeyName'', ParameterValue = Str []\<rparr>"
    using thm3[THEN conjunct2, THEN conjunct2] by (simp add: trim_cd_overridden Map_get_def)
  from parseParams_defaults_example a b c d show ?thesis by (intro conjI)
qed

text \<open>
  C5 as stated fails. A template without a \<open>Parameters\<close> section gives \<open>undefined\<close> for
  \<open>templateJSON.Parameters\<close>; every key is absent from it, and for an entry
  \<open>$[cd_default]\<close> the read \<open>cfnTemplateParams[paramKey]\<close> throws, so the entry does not
  resolve to the empty string and the resolution of the document is rejected.
\<close>

theorem resolved_values_are_strings_counterexample:
  "getProperty (Obj [(''Resources'', Obj [])]) ''Parameters'' = Inr Undefined
   \<and> resolveParam exampleWorld Undefined [] 0
        \<lparr>ParameterKey = ''VpcCidr'', ParameterValue = Str ''$[cd_default]''\<rparr>
       = Inl TypeError
   \<and> parseParams exampleWorld
        [\<lparr>ParameterKey = ''VpcCidr'', ParameterValue = Str ''$[cd_default]''\<rparr>] Undefined []
       = Inl TypeError"
proof -
  have r: "resolveParam exampleWorld Undefined [] 0
        \<lparr>ParameterKey = ''VpcCidr'', ParameterValue = Str ''$[cd_default]''\<rparr>
       = Inl TypeError"
    by (simp add: resolveParam_def paramUseTemplateDefault_def trim_cd_default
        getTemplateDefault_no_section)
  then show ?thesis by (simp add: parseParams_single)
qed

section \<open>Values that are not strings\<close>

lemma lefts_mem: "e \<in> set (lefts rs) \<longleftrightarrow> Inl e \<in> set rs"
  by (induction rs rule: lefts.induct) auto

text \<open>
  When an entry throws before its first \<open>await\<close>, \<open>Promise.all\<close> is rejected with an
  error thrown before an \<open>await\<close>, the one of the first such entry.
\<close>

lemma Promise_all_thrown:
  assumes "Inl e \<in> set rs" and "thrownBeforeAwait e"
  shows "\<exists>e'. Promise_all rs = Inl e' \<and> thrownBeforeAwait e' \<and> Inl e' \<in> set rs"
proof -
  from assms have "e \<in> set (filter thrownBeforeAwait (lefts rs))" by (simp add: lefts_mem)
  then obtain e' es where f: "filter thrownBeforeAwait (lefts rs) = e' # es"
    by (cases "filter thrownBeforeAwait (lefts rs)") auto
  then have "e' \<in> set (filter thrownBeforeAwait (lefts rs))" by simp
  then have "thrownBeforeAwait e'" "Inl e' \<in> set rs" by (simp_all add: lefts_mem)
  with f show ?thesis by (simp add: Promise_all_def)
qed

lemma resolveParam_in_results:
  assumes "p \<in> set paramJSON"
  shows "\<exists>j. resolveParam w t m j p
      \<in> set (map (\<lambda>(i, p). resolveParam w t m i p) (zip [0 ..< length paramJSON] paramJSON))"
proof -
  from assms obtain j where j: "j < length paramJSON" "paramJSON ! j = p"
    by (auto simp: in_set_conv_nth)
  then have "(j, p) \<in> set (zip [0 ..< length paramJSON] paramJSON)"
    by (auto simp: in_set_zip intro!: exI[of _ j])
  then have "resolveParam w t m j p
      \<in> set (map (\<lambda>(i, p). resolveParam w t m i p) (zip [0 ..< length paramJSON] paramJSON))"
    by force
  then show ?thesis ..
qed

lemma results_from_document:
  assumes "r \<in> set (map (\<lambda>(i, p). resolveParam w t m i p)
                        (zip [0 ..< length paramJSON] paramJSON))"
  shows "\<exists>q \<in> set paramJSON. \<exists>i. r = resolveParam w t m i q"
proof -
  from assms obtain i q where "(i, q) \<in> set (zip [0 ..< length paramJSON] paramJSON)"
    "r = resolveParam w t m i q" by auto
  then show ?thesis by (auto dest: set_zip_rightD)
qed

text \<open>
  C10. If the \<open>ParameterValue\<close> of some entry of the document is not a string
  (\<open>undefined\<close>, \<open>null\<close>, a boolean, a number, an array or an object), the promise of the
  entry is rejected with the \<open>TypeError\<close> of the failed \<open>trim\<close> call and \<open>parseParams\<close>
  is rejected, whatever the other entries are: with that \<open>TypeError\<close>, unless an entry
  before it asked for a string longer than the engine can build, whose \<open>RangeError\<close> then
  comes first. Where no entry of the document throws a \<open>RangeError\<close>, the rejection is the
  \<open>TypeError\<close>.
\<close>

theorem non_string_value_fails_batch:
  assumes "p \<in> set paramJSON" and "\<forall>s. ParameterValue p \<noteq> Str s"
  shows "(\<forall>i. resolveParam w cfnTemplateParams paramVariableMap i p = Inl TypeError)
       \<and> (parseParams w paramJSON cfnTemplateParams paramVariableMap = Inl TypeError
          \<or> parseParams w paramJSON cfnTemplateParams paramVariableMap = Inl RangeError)
       \<and> ((\<forall>q \<in> set paramJSON. \<forall>i.
              resolveParam w cfnTemplateParams paramVariableMap i q \<noteq> Inl RangeError)
           \<longrightarrow> parseParams w paramJSON cfnTemplateParams paramVariableMap = Inl TypeError)"
proof -
  let ?rs = "map (\<lambda>(i, p). resolveParam w cfnTemplateParams paramVariableMap i p)
                 (zip [0 ..< length paramJSON] paramJSON)"
  have own: "\<forall>i. resolveParam w cfnTemplateParams paramVariableMap i p = Inl TypeError"
    using resolveParam_non_string[OF assms(2)] by simp
  from resolveParam_in_results[OF assms(1), of w cfnTemplateParams paramVariableMap] own
  have "Inl TypeError \<in> set ?rs" by auto
  moreover have "thrownBeforeAwait TypeError" by (simp add: thrownBeforeAwait_def)
  ultimately obtain e where e: "Promise_all ?rs = Inl e" "thrownBeforeAwait e" "Inl e \<in> set ?rs"
    using Promise_all_thrown by blast
  from e(2) have cases: "e = TypeError \<or> e = RangeError" by (simp add: thrownBeforeAwait_def)
  have exact: "parseParams w paramJSON cfnTemplateParams paramVariableMap = Inl TypeError"
    if no: "\<forall>q \<in> set paramJSON. \<forall>i.
              resolveParam w cfnTemplateParams paramVariableMap i q \<noteq> Inl RangeError"
  proof -
    from results_from_document[OF e(3)] obtain q i where
      qi: "q \<in> set paramJSON" "Inl e = resolveParam w cfnTemplateParams paramVariableMap i q"
      by blast
    from no qi(1) have "resolveParam w cfnTemplateParams paramVariableMap i q \<noteq> Inl RangeError"
      by blast
    with qi(2) have "e \<noteq> RangeError" by auto
    with cases e(1) show ?thesis by (simp add: parseParams_def)
  qed
  from cases e(1)
  have "parseParams w paramJSON cfnTemplateParams paramVariableMap = Inl TypeError
          \<or> parseParams w paramJSON cfnTemplateParams paramVariableMap = Inl RangeError"
    by (auto simp: parseParams_def)
  with own exact show ?thesis by blast
qed

lemma trim_literal: "trim ''literal'' = ''literal''"
  by code_simp

lemma resolveParam_literal:
  "resolveParam w t m i \<lparr>ParameterKey = ''A'', ParameterValue = Str ''literal''\<rparr>
     = Inr \<lparr>ParameterKey = ''A'', ParameterValue = Str ''literal''\<rparr>"
  by (simp add: resolveParam_def paramUseTemplateDefault_def paramIsOverridden_def
      trim_literal resolveDirective_def startsWith_def)

theorem non_string_value_fails_batch_witness:
  "\<lparr>ParameterKey = ''B'', ParameterValue = Null\<rparr>
     \<in> set [\<lparr>ParameterKey = ''A'', ParameterValue = Str ''literal''\<rparr>,
            \<lparr>ParameterKey = ''B'', ParameterValue = Null\<rparr>]
   \<and> resolveParam exampleWorld (Obj []) [] 1 \<lparr>ParameterKey = ''B'', ParameterValue = Null\<rparr>
       = Inl TypeError
   \<and> parseParams exampleWorld
        [\<lparr>ParameterKey = ''A'', ParameterValue = Str ''literal''\<rparr>,
         \<lparr>ParameterKey = ''B'', ParameterValue = Null\<rparr>] (Obj []) [] = Inl TypeError"
proof -
  let ?a = "\<lparr>ParameterKey = ''A'', ParameterValue = Str ''literal''\<rparr>"
  let ?b = "\<lparr>ParameterKey = ''B'', ParameterValue = Null\<rparr>"
  have mem: "?b \<in> set [?a, ?b]" by simp
  have ns: "\<forall>s. ParameterValue ?b \<noteq> Str s" by simp
  note inst = non_string_value_fails_batch[OF mem ns, of exampleWorld "Obj []" "[]"]
  have own: "resolveParam exampleWorld (Obj []) [] 1 ?b = Inl TypeError"
    using inst[THEN conjunct1] by blast
  have no: "\<forall>q \<in> set [?a, ?b]. \<forall>i. resolveParam exampleWorld (Obj []) [] i q \<noteq> Inl RangeError"
    using inst[THEN conjunct1] by (simp add: resolveParam_literal)
  have "parseParams exampleWorld [?a, ?b] (Obj []) [] = Inl TypeError"
    using inst[THEN conjunct2, THEN conjunct2] no by (rule mp)
  with mem own show ?thesis by (intro conjI)
qed

section \<open>The override table of create\<close>

text \<open>
  C4, as the code has it. \<open>create\<close> sets the four entries of the bucket and the key
  prefix after it has built the table of the option \<open>--override\<close>, so for these four keys
  the table holds the synthetic value whatever the option says.
\<close>

theorem synthetic_entries_take_precedence:
  "Map_get (createParamVariableMap override bucket keyPrefix) ''S3BucketName'' = Some bucket
   \<and> Map_get (createParamVariableMap override bucket keyPrefix) ''S3KeyPrefix''
        = Some (keyPrefix @ ''/'')
   \<and> Map_get (createParamVariableMap override bucket keyPrefix) ''QSS3BucketName'' = Some bucket
   \<and> Map_get (createParamVariableMap override bucket keyPrefix) ''QSS3KeyPrefix''
        = Some (keyPrefix @ ''/'')"
  by (simp add: createParamVariableMap_def Map_get_def Map_set_def update_conv')

lemma override_S3BucketName:
  "genOverriddenParamMap ''Name=S3BucketName,Value=mine'' = [(''S3BucketName'', ''mine'')]"
  by code_simp

text \<open>
  C4 as stated fails: the option names \<open>S3BucketName\<close> with the value \<open>mine\<close>, and the
  table that \<open>create\<close> builds for the bucket \<open>bucket\<close> maps the key to \<open>bucket\<close>.
\<close>

theorem user_override_precedence_counterexample:
  "Map_get (genOverriddenParamMap ''Name=S3BucketName,Value=mine'') ''S3BucketName''
     = Some ''mine''
   \<and> Map_get (createParamVariableMap (Some ''Name=S3BucketName,Value=mine'') ''bucket'' ''prefix'')
        ''S3BucketName'' = Some ''bucket''"
  by (simp add: override_S3BucketName createParamVariableMap_def Map_get_def Map_set_def)

section \<open>Failures of the subcommands\<close>

text \<open>
  C9. When \<open>unpackZip\<close> or \<open>uploadDeploymentPackageToS3\<close> rejects, \<open>deploy\<close> rejects:
  nothing is printed, neither the error nor the last line of \<open>main\<close>, and the promise of
  \<open>main\<close> rejects with the error.
\<close>

theorem deploy_failure_not_caught:
  "main w (st\<lparr>unpackZip := Inl e\<rparr>) Deploy = ([], Inl e)
   \<and> main w (st\<lparr>unpackZip := Inr sourceDir, uploadDeploymentPackageToS3 := Inl e\<rparr>) Deploy
        = ([], Inl e)"
  by (simp add: main_def deploy_def)

text \<open>
  \<open>create\<close>, in contrast, catches every failure of its \<open>try\<close> block: the error is
  printed, \<open>main\<close> prints its last line and its promise is fulfilled.
\<close>

lemma create_failure_caught:
  "snd (main w st (Create bucket keyPrefix override paramFile)) = Inr ()
   \<and> last (fst (main w st (Create bucket keyPrefix override paramFile))) = ProgramEnds
   \<and> (snd (createTry w st (createParamVariableMap override bucket keyPrefix) paramFile) = Inl e
        \<longrightarrow> ErrorLine e \<in> set (fst (main w st (Create bucket keyPrefix override paramFile))))"
  by (auto simp: main_def create_def split: prod.splits sum.splits)

end
